theory Spec2Isabelle
  imports Complex_Main "HOL-Library.Log_Nat"
begin

section \<open>Python values and library behaviour\<close>

text \<open>
  The model of \<^verbatim>\<open>src/emotion_analyzer.py\<close>, class \<^verbatim>\<open>EmotionAnalyzer\<close>.
  Exceptions are values: a computation that may raise returns \<open>py_error + 'a\<close>, with
  \<open>Inl\<close> the exception. Only instances of Python's \<^verbatim>\<open>Exception\<close> are modelled
  (what \<^verbatim>\<open>except Exception\<close> catches).
\<close>

datatype py_error =
    IndexError
  | KeyError
  | ValueError
  | ZeroDivisionError
  | LibraryError string

definition then_do :: "py_error + 'a \<Rightarrow> ('a \<Rightarrow> py_error + 'b) \<Rightarrow> py_error + 'b" where
  "then_do r f = (case r of Inl e \<Rightarrow> Inl e | Inr v \<Rightarrow> f v)"

subsection \<open>Floats\<close>

text \<open>
  A Python float is an IEEE 754 binary64 number. The model's numbers are reals, and every
  arithmetic operation of the source is the exact operation followed by \<open>py_float\<close>,
  the rounding to the nearest float, ties to the even significand: 53 significant bits,
  and the fixed spacing \<open>pow2 (- 1074)\<close> of the subnormal range below
  \<open>pow2 (- 1022)\<close>. A decimal literal of the source such as \<^verbatim>\<open>0.6\<close> is
  \<open>py_float 0.6\<close>. Overflow to infinity and NaN are not modelled: the model follows the
  code as long as no result exceeds the largest finite float.
\<close>

definition pow2 :: "int \<Rightarrow> real" where
  "pow2 e = (if 0 \<le> e then 2 ^ nat e else 1 / 2 ^ nat (- e))"

text \<open>For \<open>x \<noteq> 0\<close>, the \<open>b\<close> with \<open>pow2 b \<le> \<bar>x\<bar>\<close> and \<open>\<bar>x\<bar> < pow2 (b + 1)\<close>.\<close>

definition binade :: "real \<Rightarrow> int" where
  "binade x =
     (if 1 \<le> \<bar>x\<bar> then bitlen \<lfloor>\<bar>x\<bar>\<rfloor> - 1 else - bitlen (\<lceil>1 / \<bar>x\<bar>\<rceil> - 1))"

definition round_half_even :: "real \<Rightarrow> int" where
  "round_half_even x =
     (let f = \<lfloor>x\<rfloor>; d = x - of_int f
      in if d < 1 / 2 then f else if 1 / 2 < d then f + 1 else if even f then f else f + 1)"

text \<open>The exponent of the spacing of the floats around \<open>x\<close>.\<close>

definition ulp_exp :: "real \<Rightarrow> int" where
  "ulp_exp x = max (binade x - 52) (- 1074)"

definition py_float :: "real \<Rightarrow> real" where
  "py_float x =
     (if x = 0 then 0
      else of_int (round_half_even (x / pow2 (ulp_exp x))) * pow2 (ulp_exp x))"

text \<open>\<^verbatim>\<open>x + y\<close>, \<^verbatim>\<open>x * y\<close> and \<^verbatim>\<open>x / y\<close> on floats (and on a float and an int).\<close>

definition fadd :: "real \<Rightarrow> real \<Rightarrow> real" where
  "fadd x y = py_float (x + y)"

definition fmul :: "real \<Rightarrow> real \<Rightarrow> real" where
  "fmul x y = py_float (x * y)"

definition fdiv :: "real \<Rightarrow> real \<Rightarrow> real" where
  "fdiv x y = py_float (x / y)"

text \<open>
  \<^verbatim>\<open>sum(values)\<close>: the values are added one by one to the start value 0. (From
  Python 3.12 on, \<^verbatim>\<open>sum\<close> compensates the rounding errors of floats; for the one or
  two values the analyzer adds, the result is the same.)
\<close>

definition py_sum :: "real list \<Rightarrow> real" where
  "py_sum values = foldl fadd 0 values"

subsection \<open>Dicts, \<^verbatim>\<open>max\<close> and \<^verbatim>\<open>Counter\<close>\<close>

text \<open>
  A Python dict that is iterated is an association list in insertion order with unique
  keys: \<open>dict_set\<close> is \<^verbatim>\<open>d[k] = v\<close> (an existing key keeps its place, a new key goes
  last), \<open>dict_get\<close> is \<^verbatim>\<open>d.get(k, default)\<close>, \<open>dict_item\<close> is \<^verbatim>\<open>d[k]\<close>.
\<close>

fun dict_set :: "('k \<times> 'v) list \<Rightarrow> 'k \<Rightarrow> 'v \<Rightarrow> ('k \<times> 'v) list" where
  "dict_set [] k v = [(k, v)]"
| "dict_set ((k', v') # d) k v =
     (if k' = k then (k, v) # d else (k', v') # dict_set d k v)"

definition dict_get :: "('k \<times> 'v) list \<Rightarrow> 'k \<Rightarrow> 'v \<Rightarrow> 'v" where
  "dict_get d k dflt = (case map_of d k of None \<Rightarrow> dflt | Some v \<Rightarrow> v)"

definition dict_item :: "('k \<times> 'v) list \<Rightarrow> 'k \<Rightarrow> py_error + 'v" where
  "dict_item d k = (case map_of d k of None \<Rightarrow> Inl KeyError | Some v \<Rightarrow> Inr v)"

text \<open>
  \<^verbatim>\<open>max(items, key=...)\<close>: the first item whose key is maximal; \<^verbatim>\<open>ValueError\<close>
  on an empty sequence.
\<close>

definition py_max_by :: "('a \<Rightarrow> 'b::linorder) \<Rightarrow> 'a list \<Rightarrow> py_error + 'a" where
  "py_max_by key xs =
     (case xs of
        [] \<Rightarrow> Inl ValueError
      | x # rest \<Rightarrow> Inr (foldl (\<lambda>best y. if key best < key y then y else best) x rest))"

text \<open>
  \<^verbatim>\<open>collections.Counter(xs)\<close> counts the elements in order of first occurrence;
  \<^verbatim>\<open>most_common(1)\<close> is \<^verbatim>\<open>heapq.nlargest(1, items, key=count)\<close>, which for
  \<open>n = 1\<close> is \<^verbatim>\<open>max\<close> over the items (the empty list for an empty counter).
  \<open>most_common1\<close> is \<^verbatim>\<open>Counter(xs).most_common(1)[0][0]\<close>.
\<close>

definition Counter :: "'a list \<Rightarrow> ('a \<times> nat) list" where
  "Counter xs = foldl (\<lambda>c x. dict_set c x (dict_get c x 0 + 1)) [] xs"

definition most_common_1 :: "('a \<times> nat) list \<Rightarrow> ('a \<times> nat) list" where
  "most_common_1 c = (case py_max_by snd c of Inl e \<Rightarrow> [] | Inr item \<Rightarrow> [item])"

definition most_common1 :: "'a list \<Rightarrow> py_error + 'a" where
  "most_common1 xs =
     (case most_common_1 (Counter xs) of
        [] \<Rightarrow> Inl IndexError
      | item # rest \<Rightarrow> Inr (fst item))"

section \<open>Images and the external libraries\<close>

text \<open>
  A numpy array: its shape and its elements. \<^verbatim>\<open>img.size\<close> is the product of the
  shape; \<^verbatim>\<open>img.shape[i]\<close> raises \<^verbatim>\<open>IndexError\<close> beyond the number of dimensions.
\<close>

record ndarray =
  shape :: "nat list"
  pixels :: "nat list"

definition array_size :: "ndarray \<Rightarrow> nat" where
  "array_size img = prod_list (shape img)"

definition shape_at :: "ndarray \<Rightarrow> nat \<Rightarrow> py_error + nat" where
  "shape_at img i = (if i < length (shape img) then Inr (shape img ! i) else Inl IndexError)"

datatype color_code = COLOR_BGR2LAB | COLOR_LAB2BGR

text \<open>
  One raw score mapping (the \<^verbatim>\<open>'emotion'\<close> entry of a DeepFace result), and one
  DeepFace result: a dict from action name to such a mapping. The scores are taken to be
  Python floats.
\<close>

type_synonym scores = "string \<rightharpoonup> real"
type_synonym face_analysis = "string \<rightharpoonup> scores"

text \<open>
  OpenCV and DeepFace are outside the repository: their functions are parameters.
  \<open>deepface_analyze img backend\<close> is
  \<^verbatim>\<open>DeepFace.analyze(img, actions=['emotion'], enforce_detection=False, silent=True)\<close>
  with \<^verbatim>\<open>detector_backend\<close> left out (\<open>None\<close>) or given.
\<close>

record externals =
  cv2_resize :: "ndarray \<Rightarrow> nat \<times> nat \<Rightarrow> py_error + ndarray"
  cv2_cvtColor :: "ndarray \<Rightarrow> color_code \<Rightarrow> py_error + ndarray"
  cv2_split :: "ndarray \<Rightarrow> py_error + ndarray list"
  clahe_apply :: "real \<Rightarrow> nat \<times> nat \<Rightarrow> ndarray \<Rightarrow> py_error + ndarray"
  cv2_merge :: "ndarray list \<Rightarrow> py_error + ndarray"
  deepface_analyze :: "ndarray \<Rightarrow> string option \<Rightarrow> py_error + face_analysis list"

text \<open>
  What a call does besides returning: library calls the claims speak of, and log lines.
  A log line is the text before the exception and the exception \<open>e\<close>, for the line that
  ends with \<^verbatim>\<open>str(e)\<close>.
\<close>

datatype event =
    CallResize ndarray "nat \<times> nat"
  | CallAnalyze ndarray "string option"
  | LogWarning string py_error
  | LogError string py_error

section \<open>The analyzer\<close>

record analyzer =
  emotions :: "string list"
  previous_emotions :: "string list"
  smooth_window :: int
  emotion_weights :: "string \<rightharpoonup> real"

text \<open>\<^verbatim>\<open>EmotionAnalyzer.__init__\<close>\<close>

definition emotion_labels :: "string list" where
  "emotion_labels =
     [''angry'', ''disgust'', ''fear'', ''happy'', ''sad'', ''surprise'', ''neutral'']"

definition default_weights :: "string \<rightharpoonup> real" where
  "default_weights = map_of
     [(''sad'', py_float 1.2), (''disgust'', py_float 1.2), (''angry'', py_float 1.1),
      (''fear'', py_float 1.1), (''happy'', py_float 0.9), (''neutral'', py_float 0.8),
      (''surprise'', py_float 1.0)]"

definition init :: analyzer where
  "init = \<lparr> emotions = emotion_labels, previous_emotions = [], smooth_window = 2,
            emotion_weights = default_weights \<rparr>"

text \<open>\<^verbatim>\<open>EmotionAnalyzer.enhance_contrast\<close>\<close>

definition enhance_contrast :: "externals \<Rightarrow> ndarray \<Rightarrow> py_error + ndarray" where
  "enhance_contrast ext img =
     (if length (shape img) = 3 then
        then_do (cv2_cvtColor ext img COLOR_BGR2LAB) (\<lambda>lab.
        then_do (cv2_split ext lab) (\<lambda>channels.
          case channels of
            [l, a, b] \<Rightarrow>
              then_do (clahe_apply ext (py_float 2.0) (8, 8) l) (\<lambda>cl.
              then_do (cv2_merge ext [cl, a, b]) (\<lambda>limg.
              cv2_cvtColor ext limg COLOR_LAB2BGR))
          | _ \<Rightarrow> Inl ValueError))
      else Inr img)"

subsection \<open>\<^verbatim>\<open>analyze_emotion\<close>, lines 54 to 94: from the image to the raw score mappings\<close>

text \<open>
  How a part of the body ends: it raises, it returns from \<^verbatim>\<open>analyze_emotion\<close>, or
  control goes on with a value.
\<close>

datatype 'a flow = Raise py_error | Return "string \<times> real" | Continue 'a

definition min_size :: nat where
  "min_size = 96"

text \<open>
  Line 60, \<^verbatim>\<open>face_img.shape[0] < min_size or face_img.shape[1] < min_size\<close>:
  \<^verbatim>\<open>or\<close> does not evaluate its right side when the left one holds.
\<close>

definition below_min_size :: "ndarray \<Rightarrow> py_error + bool" where
  "below_min_size img =
     then_do (shape_at img 0) (\<lambda>h.
       if h < min_size then Inr True
       else then_do (shape_at img 1) (\<lambda>w. Inr (w < min_size)))"

text \<open>Lines 58 to 61.\<close>

definition ensure_min_size :: "externals \<Rightarrow> ndarray \<Rightarrow> event list \<times> (py_error + ndarray)" where
  "ensure_min_size ext img =
     (case below_min_size img of
        Inl e \<Rightarrow> ([], Inl e)
      | Inr True \<Rightarrow>
          ([CallResize img (min_size, min_size)], cv2_resize ext img (min_size, min_size))
      | Inr False \<Rightarrow> ([], Inr img))"

text \<open>
  One \<^verbatim>\<open>try\<close> block of lines 68 to 91: \<^verbatim>\<open>result[0]['emotion']\<close> of the
  classifier's answer. Whatever is raised inside is caught, logged as a warning, and
  nothing is appended to \<^verbatim>\<open>results\<close>.
\<close>

definition first_emotion :: "externals \<Rightarrow> ndarray \<Rightarrow> string option \<Rightarrow> py_error + scores" where
  "first_emotion ext img backend =
     then_do (deepface_analyze ext img backend) (\<lambda>result.
       case result of
         [] \<Rightarrow> Inl IndexError
       | face # others \<Rightarrow>
           (case face ''emotion'' of None \<Rightarrow> Inl KeyError | Some sc \<Rightarrow> Inr sc))"

definition attempt ::
  "externals \<Rightarrow> ndarray \<Rightarrow> string option \<Rightarrow> string \<Rightarrow> event list \<times> scores list" where
  "attempt ext img backend name =
     (case first_emotion ext img backend of
        Inr sc \<Rightarrow> ([CallAnalyze img backend], [sc])
      | Inl e \<Rightarrow>
          ([CallAnalyze img backend, LogWarning (name @ '' attempt failed: '') e], []))"

text \<open>Lines 63 to 94: contrast, the two attempts, and the return when both failed.\<close>

definition classify :: "externals \<Rightarrow> ndarray \<Rightarrow> event list \<times> scores list flow" where
  "classify ext sized =
     (case enhance_contrast ext sized of
        Inl e \<Rightarrow> ([], Raise e)
      | Inr face_img \<Rightarrow>
          (let (ev1, r1) = attempt ext face_img None ''First'';
               (ev2, r2) = attempt ext face_img (Some ''opencv'') ''Second'';
               results = r1 @ r2
           in if results = [] then (ev1 @ ev2, Return (''neutral'', py_float 0.0))
              else (ev1 @ ev2, Continue results)))"

text \<open>Lines 54 to 94.\<close>

definition acquire :: "externals \<Rightarrow> ndarray option \<Rightarrow> event list \<times> scores list flow" where
  "acquire ext face_img =
     (case face_img of
        None \<Rightarrow> ([], Return (''neutral'', py_float 0.0))
      | Some img \<Rightarrow>
          if array_size img = 0 then ([], Return (''neutral'', py_float 0.0))
          else
            (case ensure_min_size ext img of
               (ev, Inl e) \<Rightarrow> (ev, Raise e)
             | (ev, Inr sized) \<Rightarrow>
                 (case classify ext sized of (ev', fl) \<Rightarrow> (ev @ ev', fl))))"

subsection \<open>\<^verbatim>\<open>analyze_emotion\<close>, lines 96 to 135: from the score mappings to the decision\<close>

text \<open>
  Lines 97 to 100. The division by \<^verbatim>\<open>len(values)\<close> is by the number of results,
  which is positive wherever this is called from (see \<open>stabilize\<close>).
\<close>

definition average_emotions :: "string list \<Rightarrow> scores list \<Rightarrow> (string \<times> real) list" where
  "average_emotions emos results =
     foldl (\<lambda>avg emotion.
              let values = map (\<lambda>r. case r emotion of None \<Rightarrow> 0 | Some v \<Rightarrow> v) results
              in dict_set avg emotion (fdiv (py_sum values) (of_nat (length values))))
       [] emos"

text \<open>Lines 103 to 106.\<close>

definition weight_get :: "(string \<rightharpoonup> real) \<Rightarrow> string \<Rightarrow> real" where
  "weight_get weights emo = (case weights emo of None \<Rightarrow> py_float 1.0 | Some w \<Rightarrow> w)"

definition weighted_emotions ::
  "(string \<rightharpoonup> real) \<Rightarrow> (string \<times> real) list \<Rightarrow> (string \<times> real) list" where
  "weighted_emotions weights avg =
     map (\<lambda>(emo, conf). (emo, fmul conf (weight_get weights emo))) avg"

text \<open>Line 109: this frame's candidate, with its weighted score.\<close>

definition dominant_emotion :: "analyzer \<Rightarrow> scores list \<Rightarrow> py_error + string \<times> real" where
  "dominant_emotion s results =
     py_max_by snd
       (weighted_emotions (emotion_weights s) (average_emotions (emotions s) results))"

text \<open>Lines 112 to 114.\<close>

definition push_history :: "string list \<Rightarrow> string \<Rightarrow> int \<Rightarrow> string list" where
  "push_history history label window =
     (let appended = history @ [label]
      in if int (length appended) > window then tl appended else appended)"

text \<open>Lines 118 to 124.\<close>

definition smooth ::
  "string list \<Rightarrow> (string \<times> real) list \<Rightarrow> string \<Rightarrow> py_error + string \<times> real" where
  "smooth history avg dominant =
     then_do (if history \<noteq> [] then most_common1 history else Inr dominant)
       (\<lambda>smoothed_emotion.
          then_do (dict_item avg smoothed_emotion)
            (\<lambda>v. Inr (smoothed_emotion, fdiv v (py_float 100.0))))"

text \<open>Lines 127 to 135.\<close>

definition neutral_override :: "(string \<times> real) list \<Rightarrow> string \<times> real \<Rightarrow> string \<times> real" where
  "neutral_override avg smoothed =
     (if fst smoothed = ''neutral'' \<and> snd smoothed < py_float 0.6 then
        (case py_max_by snd (filter (\<lambda>(k, v). k \<noteq> ''neutral'') avg) of
           Inl e \<Rightarrow> smoothed
         | Inr next_emotion \<Rightarrow>
             if snd next_emotion > 20
             then (fst next_emotion, fdiv (snd next_emotion) (py_float 100.0))
             else smoothed)
      else smoothed)"

text \<open>
  Lines 96 to 135. With no result, line 100 would divide by zero for the first label;
  \<open>acquire\<close> never continues with an empty list.
\<close>

definition stabilize :: "analyzer \<Rightarrow> scores list \<Rightarrow> analyzer \<times> (py_error + string \<times> real)" where
  "stabilize s results =
     (if results = [] \<and> emotions s \<noteq> [] then (s, Inl ZeroDivisionError)
      else
        (case dominant_emotion s results of
           Inl e \<Rightarrow> (s, Inl e)
         | Inr dominant \<Rightarrow>
             (let avg = average_emotions (emotions s) results;
                  s' = s\<lparr>previous_emotions :=
                          push_history (previous_emotions s) (fst dominant) (smooth_window s)\<rparr>
              in (s', then_do (smooth (previous_emotions s') avg (fst dominant))
                        (\<lambda>smoothed. Inr (neutral_override avg smoothed))))))"

subsection \<open>\<^verbatim>\<open>analyze_emotion\<close>\<close>

text \<open>The body of the outer \<^verbatim>\<open>try\<close>: the new state, the events, and how it ended.\<close>

definition analyze_emotion_body ::
  "externals \<Rightarrow> analyzer \<Rightarrow> ndarray option
     \<Rightarrow> analyzer \<times> event list \<times> (py_error + string \<times> real)" where
  "analyze_emotion_body ext s face_img =
     (case acquire ext face_img of
        (ev, Raise e) \<Rightarrow> (s, ev, Inl e)
      | (ev, Return r) \<Rightarrow> (s, ev, Inr r)
      | (ev, Continue results) \<Rightarrow>
          (case stabilize s results of (s', r) \<Rightarrow> (s', ev, r)))"

text \<open>With the handler of lines 137 to 139.\<close>

definition analyze_emotion ::
  "externals \<Rightarrow> analyzer \<Rightarrow> ndarray option \<Rightarrow> analyzer \<times> event list \<times> (string \<times> real)" where
  "analyze_emotion ext s face_img =
     (case analyze_emotion_body ext s face_img of
        (s', ev, Inr r) \<Rightarrow> (s', ev, r)
      | (s', ev, Inl e) \<Rightarrow>
          (s', ev @ [LogError ''Error in emotion analysis: '' e], (''neutral'', py_float 0.1)))"

text \<open>The states an analyzer can be in: a fresh one, and what any call leaves.\<close>

inductive reachable :: "analyzer \<Rightarrow> bool" where
  fresh: "reachable init"
| call: "reachable s \<Longrightarrow> reachable (fst (analyze_emotion ext s face_img))"

text \<open>
  The candidate dominant label of a call (line 109), when the call gets that far:
  \<open>None\<close> when it returns or raises before.
\<close>

definition frame_candidate :: "externals \<Rightarrow> analyzer \<Rightarrow> ndarray option \<Rightarrow> string option" where
  "frame_candidate ext s face_img =
     (case snd (acquire ext face_img) of
        Continue results \<Rightarrow>
          (case dominant_emotion s results of Inl e \<Rightarrow> None | Inr d \<Rightarrow> Some (fst d))
      | _ \<Rightarrow> None)"

section \<open>Specification vocabulary\<close>

text \<open>
  The averaged score of a label: the mean of its raw scores over the successful attempts,
  a label missing from an attempt counting as 0, as the floats compute it (the sum and the
  quotient are rounded).
\<close>

definition mean_score :: "scores list \<Rightarrow> string \<Rightarrow> real" where
  "mean_score results label =
     fdiv (py_sum (map (\<lambda>r. case r label of None \<Rightarrow> 0 | Some v \<Rightarrow> v) results))
       (of_nat (length results))"

definition averages :: "scores list \<Rightarrow> (string \<times> real) list" where
  "averages results = map (\<lambda>l. (l, mean_score results l)) emotion_labels"

text \<open>The labels of line 129: all but \<open>neutral\<close>, in the order of the label list.\<close>

definition other_labels :: "string list" where
  "other_labels = filter (\<lambda>l. l \<noteq> ''neutral'') emotion_labels"

text \<open>The invariant of the analyzer's state.\<close>

definition state_ok :: "analyzer \<Rightarrow> bool" where
  "state_ok s \<longleftrightarrow>
     emotions s = emotion_labels \<and> emotion_weights s = default_weights \<and> smooth_window s = 2
     \<and> length (previous_emotions s) \<le> 2
     \<and> list_all (\<lambda>l. l \<in> set emotion_labels) (previous_emotions s)"

section \<open>Test doubles\<close>

text \<open>
  External libraries for concrete runs: OpenCV operations that succeed (resizing sets the
  first two dimensions), and a classifier that answers \<open>first\<close> to the call without a
  detector backend and \<open>second\<close> to the call with one.
\<close>

definition stub_externals ::
  "(py_error + face_analysis list) \<Rightarrow> (py_error + face_analysis list) \<Rightarrow> externals" where
  "stub_externals first second =
     \<lparr> cv2_resize = (\<lambda>img dsize. Inr (img\<lparr>shape := [snd dsize, fst dsize] @ drop 2 (shape img)\<rparr>)),
       cv2_cvtColor = (\<lambda>img code. Inr img),
       cv2_split = (\<lambda>img. Inr [img, img, img]),
       clahe_apply = (\<lambda>clip tiles img. Inr img),
       cv2_merge = (\<lambda>imgs. case imgs of [] \<Rightarrow> Inl (LibraryError ''merge'') | c # cs \<Rightarrow> Inr c),
       deepface_analyze = (\<lambda>img backend. case backend of None \<Rightarrow> first | Some b \<Rightarrow> second) \<rparr>"

definition face :: "(string \<times> real) list \<Rightarrow> face_analysis" where
  "face sc = [''emotion'' \<mapsto> map_of sc]"

definition image :: "nat list \<Rightarrow> ndarray" where
  "image dims = \<lparr> shape = dims, pixels = [] \<rparr>"

text \<open>A classifier whose first attempt scores \<open>label\<close> at 80 and whose second attempt fails.\<close>

definition likely :: "string \<Rightarrow> externals" where
  "likely label =
     stub_externals (Inr [face [(label, 80), (''neutral'', 20)]]) (Inl (LibraryError ''no face''))"

text \<open>A classifier both of whose attempts fail: no face in the answer, then an exception.\<close>

definition deaf :: externals where
  "deaf = stub_externals (Inr []) (Inl (LibraryError ''no face''))"

text \<open>OpenCV whose \<^verbatim>\<open>resize\<close> raises.\<close>

definition no_resize :: externals where
  "no_resize = (likely ''happy'')\<lparr>cv2_resize := \<lambda>img dsize. Inl (LibraryError ''resize'')\<rparr>"

text \<open>A classifier that sees a neutral face with a trace of sadness; its second attempt fails.\<close>

definition subtle_sadness :: externals where
  "subtle_sadness =
     stub_externals
       (Inr [face [(''neutral'', 55), (''sad'', 25), (''angry'', 5), (''disgust'', 5),
                   (''fear'', 5), (''happy'', 3), (''surprise'', 2)]])
       (Inl (LibraryError ''no face''))"

text \<open>A classifier both of whose attempts score \<open>sad\<close> and \<open>happy\<close> at 50.\<close>

definition torn :: externals where
  "torn =
     stub_externals (Inr [face [(''sad'', 50), (''happy'', 50)]])
       (Inr [face [(''sad'', 50), (''happy'', 50)]])"


section \<open>Facts about the library model\<close>

lemma then_do_Inr [simp]: "then_do (Inr v) f = f v"
  by (simp add: then_do_def)

lemma then_do_Inl [simp]: "then_do (Inl e) f = Inl e"
  by (simp add: then_do_def)

subsection \<open>Floats\<close>

lemma pow2_powr: "pow2 e = 2 powr (of_int e)"
proof (cases "0 \<le> e")
  case True
  then have "2 powr real_of_int e = 2 powr real (nat e)" by simp
  also have "\<dots> = 2 ^ nat e" by (simp add: powr_realpow)
  finally show ?thesis using True by (simp add: pow2_def)
next
  case False
  then have "2 powr real_of_int e = 2 powr (- real (nat (- e)))" by simp
  also have "\<dots> = 1 / 2 powr real (nat (- e))" by (simp only: powr_minus_divide)
  also have "\<dots> = 1 / 2 ^ nat (- e)" by (simp add: powr_realpow)
  finally show ?thesis using False by (simp add: pow2_def)
qed

lemma pow2_pos: "0 < pow2 e"
  by (simp add: pow2_powr)

lemma pow2_add: "pow2 (a + b) = pow2 a * pow2 b"
  by (simp add: pow2_powr powr_add)

lemma pow2_mono: "a \<le> b \<Longrightarrow> pow2 a \<le> pow2 b"
  by (simp add: pow2_powr)

lemma pow2_nat: "0 \<le> e \<Longrightarrow> pow2 e = of_int (2 ^ nat e)"
  by (simp add: pow2_def)

lemma binade_bounds:
  assumes "0 < x"
  shows "pow2 (binade x) \<le> x \<and> x < pow2 (binade x + 1)"
proof (cases "1 \<le> x")
  case True
  let ?n = "\<lfloor>x\<rfloor>"
  have n: "0 < ?n" using True by simp
  from bitlen_bounds [OF n]
  have lo: "2 ^ nat (bitlen ?n - 1) \<le> ?n" and hi: "?n < 2 ^ nat (bitlen ?n)" by simp_all
  have b: "binade x = bitlen ?n - 1" using True assms by (simp add: binade_def)
  have bl: "1 \<le> bitlen ?n" using n by (simp add: bitlen_alt_def)
  have "pow2 (bitlen ?n - 1) = of_int (2 ^ nat (bitlen ?n - 1))" using bl by (simp add: pow2_nat)
  also have "\<dots> \<le> of_int ?n" using lo by (simp only: of_int_le_iff)
  also have "\<dots> \<le> x" by simp
  finally have 1: "pow2 (binade x) \<le> x" by (simp add: b)
  have "?n + 1 \<le> 2 ^ nat (bitlen ?n)" using hi by simp
  then have "of_int (?n + 1) \<le> (of_int (2 ^ nat (bitlen ?n)) :: real)" by (simp only: of_int_le_iff)
  moreover have "x < of_int (?n + 1)" by simp
  ultimately have "x < of_int (2 ^ nat (bitlen ?n))" by (rule order.strict_trans2 [rotated])
  moreover have "pow2 (bitlen ?n) = of_int (2 ^ nat (bitlen ?n))" using bl by (simp add: pow2_nat)
  ultimately have 2: "x < pow2 (binade x + 1)" by (simp add: b)
  from 1 2 show ?thesis by simp
next
  case False
  let ?y = "1 / x"
  let ?m = "\<lceil>?y\<rceil> - 1"
  let ?k = "bitlen ?m"
  have y: "1 < ?y" using False assms by simp
  then have m: "0 < ?m" by simp
  from bitlen_bounds [OF m]
  have lo: "2 ^ nat (?k - 1) \<le> ?m" and hi: "?m < 2 ^ nat ?k" by simp_all
  have b: "binade x = - ?k" using False assms by (simp add: binade_def)
  have kl: "1 \<le> ?k" using m by (simp add: bitlen_alt_def)
  have my: "of_int ?m < ?y" "?y \<le> of_int ?m + 1" by linarith+
  have "?m + 1 \<le> 2 ^ nat ?k" using hi by simp
  then have "of_int (?m + 1) \<le> (of_int (2 ^ nat ?k) :: real)" by (simp only: of_int_le_iff)
  then have "of_int ?m + 1 \<le> (2 ^ nat ?k :: real)" by simp
  with my(2) have yk: "?y \<le> 2 ^ nat ?k" by linarith
  have "(of_int (2 ^ nat (?k - 1)) :: real) \<le> of_int ?m" using lo by (simp only: of_int_le_iff)
  then have "(2 ^ nat (?k - 1) :: real) \<le> of_int ?m" by simp
  with my(1) have ky: "2 ^ nat (?k - 1) < ?y" by linarith
  have p1: "pow2 (- ?k) = 1 / 2 ^ nat ?k" using kl by (simp add: pow2_def)
  have p2: "pow2 (- ?k + 1) = 1 / 2 ^ nat (?k - 1)"
  proof (cases "?k = 1")
    case True
    then show ?thesis by (simp add: pow2_def)
  next
    case False
    with kl have "\<not> 0 \<le> - ?k + 1" "nat (- (- ?k + 1)) = nat (?k - 1)" by simp_all
    then show ?thesis by (simp add: pow2_def)
  qed
  have 1: "pow2 (- ?k) \<le> x"
    unfolding p1 using yk assms by (simp add: field_simps)
  have 2: "x < pow2 (- ?k + 1)"
    unfolding p2 using ky assms by (simp add: field_simps)
  from 1 2 show ?thesis by (simp add: b)
qed

lemma round_half_even_ge: "of_int n \<le> x \<Longrightarrow> n \<le> round_half_even x"
proof -
  assume "of_int n \<le> x"
  then have "n \<le> \<lfloor>x\<rfloor>" by (simp add: le_floor_iff)
  then show ?thesis by (auto simp: round_half_even_def Let_def)
qed

lemma round_half_even_le: "x \<le> of_int n \<Longrightarrow> round_half_even x \<le> n"
proof (cases "x = of_int n")
  case True
  then show ?thesis by (simp add: round_half_even_def)
next
  case False
  assume "x \<le> of_int n"
  with False have "x < of_int n" by simp
  then have "\<lfloor>x\<rfloor> < n" by (simp add: floor_less_iff)
  then show ?thesis by (auto simp: round_half_even_def Let_def)
qed

lemma round_half_even_mono:
  assumes "x \<le> y"
  shows "round_half_even x \<le> round_half_even y"
proof (cases "\<lfloor>x\<rfloor> = \<lfloor>y\<rfloor>")
  case True
  with assms show ?thesis by (auto simp: round_half_even_def Let_def)
next
  case False
  with assms have "\<lfloor>x\<rfloor> + 1 \<le> \<lfloor>y\<rfloor>" using floor_mono [OF assms] by simp
  moreover have "round_half_even x \<le> \<lfloor>x\<rfloor> + 1" by (auto simp: round_half_even_def Let_def)
  moreover have "\<lfloor>y\<rfloor> \<le> round_half_even y" by (auto simp: round_half_even_def Let_def)
  ultimately show ?thesis by simp
qed

lemma py_float_pos:
  "x \<noteq> 0 \<Longrightarrow> py_float x = of_int (round_half_even (x / pow2 (ulp_exp x))) * pow2 (ulp_exp x)"
  by (simp add: py_float_def)

lemma py_float_nonneg:
  assumes "0 \<le> x"
  shows "0 \<le> py_float x"
proof (cases "x = 0")
  case True
  then show ?thesis by (simp add: py_float_def)
next
  case False
  have "of_int 0 \<le> x / pow2 (ulp_exp x)" using assms pow2_pos [of "ulp_exp x"] by simp
  then have "0 \<le> round_half_even (x / pow2 (ulp_exp x))" by (rule round_half_even_ge)
  then show ?thesis using pow2_pos [of "ulp_exp x"] by (simp add: py_float_pos [OF False])
qed

lemma binade_mono:
  assumes "0 < x" and "x \<le> y"
  shows "binade x \<le> binade y"
proof (rule ccontr)
  assume "\<not> binade x \<le> binade y"
  then have "binade y + 1 \<le> binade x" by simp
  then have "pow2 (binade y + 1) \<le> pow2 (binade x)" by (rule pow2_mono)
  also have "\<dots> \<le> x" using binade_bounds [OF assms(1)] by simp
  also have "\<dots> \<le> y" by (rule assms(2))
  finally show False using binade_bounds [of y] assms by simp
qed

lemma py_float_mono_pos:
  assumes "0 < x" and "x \<le> y"
  shows "py_float x \<le> py_float y"
proof -
  have y: "0 < y" using assms by simp
  let ?qx = "ulp_exp x" and ?qy = "ulp_exp y"
  have fx: "py_float x = of_int (round_half_even (x / pow2 ?qx)) * pow2 ?qx"
    using assms(1) by (simp add: py_float_pos)
  have fy: "py_float y = of_int (round_half_even (y / pow2 ?qy)) * pow2 ?qy"
    using y by (simp add: py_float_pos)
  have bm: "binade x \<le> binade y" using assms by (rule binade_mono)
  then have qm: "?qx \<le> ?qy" by (simp add: ulp_exp_def)
  show ?thesis
  proof (cases "?qx = ?qy")
    case True
    have "x / pow2 ?qy \<le> y / pow2 ?qy" using assms(2) pow2_pos [of ?qy] by (simp add: divide_right_mono)
    then have "round_half_even (x / pow2 ?qy) \<le> round_half_even (y / pow2 ?qy)"
      by (rule round_half_even_mono)
    then have "(of_int (round_half_even (x / pow2 ?qy)) :: real) \<le> of_int (round_half_even (y / pow2 ?qy))"
      by (simp only: of_int_le_iff)
    then show ?thesis unfolding fx fy True using pow2_pos [of ?qy] by (simp add: mult_right_mono)
  next
    case False
    with qm have lt: "?qx < ?qy" by simp
    then have qy: "?qy = binade y - 52" by (auto simp: ulp_exp_def)
    from lt have bl: "binade x + 1 \<le> binade y" by (auto simp: ulp_exp_def)
    let ?B = "pow2 (binade y)"
    have d: "0 \<le> binade y - ?qx" using lt qy by simp
    have "binade y = (binade y - ?qx) + ?qx" by simp
    then have split: "?B = pow2 (binade y - ?qx) * pow2 ?qx" by (metis pow2_add)
    have "x < pow2 (binade x + 1)" using binade_bounds [OF assms(1)] by simp
    also have "\<dots> \<le> ?B" using bl by (rule pow2_mono)
    finally have "x \<le> ?B" by simp
    then have "x / pow2 ?qx \<le> pow2 (binade y - ?qx)"
      unfolding split using pow2_pos [of ?qx] by (simp add: field_simps)
    then have "x / pow2 ?qx \<le> of_int (2 ^ nat (binade y - ?qx))" using d by (simp add: pow2_nat)
    then have "round_half_even (x / pow2 ?qx) \<le> 2 ^ nat (binade y - ?qx)"
      by (rule round_half_even_le)
    then have "(of_int (round_half_even (x / pow2 ?qx)) :: real) \<le> of_int (2 ^ nat (binade y - ?qx))"
      by (simp only: of_int_le_iff)
    then have "of_int (round_half_even (x / pow2 ?qx)) \<le> pow2 (binade y - ?qx)"
      using d by (simp add: pow2_nat)
    then have lo: "py_float x \<le> ?B"
      unfolding fx split using pow2_pos [of ?qx] by (simp add: mult_right_mono)
    have "binade y = 52 + ?qy" using qy by simp
    then have split': "?B = pow2 52 * pow2 ?qy" by (metis pow2_add)
    have "?B \<le> y" using binade_bounds [OF y] by simp
    then have "pow2 52 \<le> y / pow2 ?qy"
      unfolding split' using pow2_pos [of ?qy] by (simp add: field_simps)
    then have "of_int (2 ^ 52) \<le> y / pow2 ?qy" by (simp add: pow2_def)
    then have "2 ^ 52 \<le> round_half_even (y / pow2 ?qy)" by (rule round_half_even_ge)
    then have "(of_int (2 ^ 52) :: real) \<le> of_int (round_half_even (y / pow2 ?qy))"
      by (simp only: of_int_le_iff)
    then have "pow2 52 \<le> of_int (round_half_even (y / pow2 ?qy))" by (simp add: pow2_def)
    then have hi: "?B \<le> py_float y"
      unfolding fy split' using pow2_pos [of ?qy] by (simp add: mult_right_mono)
    from lo hi show ?thesis by simp
  qed
qed

lemma py_float_mono:
  assumes "0 \<le> x" and "x \<le> y"
  shows "py_float x \<le> py_float y"
proof (cases "x = 0")
  case True
  then show ?thesis using py_float_nonneg [of y] assms by (simp add: py_float_def)
next
  case False
  with assms have "0 < x" by simp
  then show ?thesis using assms(2) by (rule py_float_mono_pos)
qed

lemmas float_defs = py_float_def ulp_exp_def binade_def round_half_even_def pow2_def compute_bitlen

lemma py_float_0 [simp]: "py_float 0 = 0"
  by (simp add: py_float_def)

lemma py_float_1 [simp]: "py_float 1 = 1"
  by (simp add: float_defs)

lemma py_float_2 [simp]: "py_float 2 = 2"
  by (simp add: float_defs)

lemma py_float_100 [simp]: "py_float 100 = 100"
  by (simp add: float_defs)

lemma py_float_200: "py_float 200 = 200"
  by (simp add: float_defs)

lemma py_float_tenth [simp]: "py_float (1 / 10) = 3602879701896397 / 36028797018963968"
  by (simp add: float_defs)

subsection \<open>The first maximum\<close>

lemma foldl_max_first:
  "\<exists>pre post. x # rest = pre @ foldl (\<lambda>best y. if key best < key y then y else best) x rest # post
     \<and> (\<forall>a\<in>set pre. key a < key (foldl (\<lambda>best y. if key best < key y then y else best) x rest))
     \<and> (\<forall>a\<in>set post. key a \<le> key (foldl (\<lambda>best y. if key best < key y then y else best) x rest))"
  (is "\<exists>pre post. ?P rest pre post")
  for key :: "'a \<Rightarrow> 'b::linorder"
proof (induction rest rule: rev_induct)
  case Nil
  have "?P [] [] []" by simp
  then show ?case by blast
next
  case (snoc y rest)
  let ?m = "foldl (\<lambda>best y. if key best < key y then y else best) x rest"
  from snoc obtain pre post where dec: "x # rest = pre @ ?m # post"
    and lt: "\<forall>a\<in>set pre. key a < key ?m" and le: "\<forall>a\<in>set post. key a \<le> key ?m"
    by blast
  show ?case
  proof (cases "key ?m < key y")
    case True
    have "?P (rest @ [y]) (pre @ ?m # post) []"
      using True dec lt le by (auto simp: Cons_eq_append_conv)
    then show ?thesis by blast
  next
    case False
    have "?P (rest @ [y]) pre (post @ [y])"
      using False dec lt le by (auto simp: Cons_eq_append_conv)
    then show ?thesis by blast
  qed
qed

lemma py_max_by_Nil [simp]: "py_max_by key [] = Inl ValueError"
  by (simp add: py_max_by_def)

lemma py_max_by_first:
  fixes key :: "'a \<Rightarrow> 'b::linorder"
  assumes "xs \<noteq> []"
  shows "\<exists>m pre post. py_max_by key xs = Inr m \<and> xs = pre @ m # post
           \<and> (\<forall>a\<in>set pre. key a < key m) \<and> (\<forall>a\<in>set post. key a \<le> key m)"
proof -
  from assms obtain x rest where xs: "xs = x # rest" by (cases xs) auto
  from foldl_max_first [of x rest key] show ?thesis
    unfolding xs py_max_by_def by (simp only: list.case) blast
qed

lemma py_max_by_Inr:
  fixes key :: "'a \<Rightarrow> 'b::linorder"
  assumes "py_max_by key xs = Inr m"
  shows "m \<in> set xs" and "\<forall>a\<in>set xs. key a \<le> key m"
proof -
  from assms have "xs \<noteq> []" by auto
  from py_max_by_first [OF this, of key] assms
  obtain pre post where "xs = pre @ m # post" "\<forall>a\<in>set pre. key a < key m" "\<forall>a\<in>set post. key a \<le> key m"
    by auto
  then show "m \<in> set xs" and "\<forall>a\<in>set xs. key a \<le> key m" by (auto simp: less_imp_le)
qed

subsection \<open>Dicts and counters\<close>

lemma dict_set_new: "k \<notin> fst ` set d \<Longrightarrow> dict_set d k v = d @ [(k, v)]"
  by (induction d) auto

lemma dict_set_graph:
  "distinct ks \<Longrightarrow> dict_set (map (\<lambda>x. (x, f x)) ks) k v =
     (if k \<in> set ks then map (\<lambda>x. (x, (f(k := v)) x)) ks else map (\<lambda>x. (x, f x)) ks @ [(k, v)])"
  by (induction ks) auto

lemma map_of_graph: "map_of (map (\<lambda>x. (x, f x)) ks) k = (if k \<in> set ks then Some (f k) else None)"
  by (induction ks) auto

lemma Counter_snoc: "Counter (xs @ [y]) = dict_set (Counter xs) y (dict_get (Counter xs) y 0 + 1)"
  by (simp add: Counter_def)

lemma Counter_eq: "Counter xs = map (\<lambda>x. (x, count_list xs x)) (rev (remdups (rev xs)))"
proof (induction xs rule: rev_induct)
  case Nil
  show ?case by (simp add: Counter_def)
next
  case (snoc y xs)
  let ?ks = "rev (remdups (rev xs))"
  have d: "distinct ?ks" by simp
  have get: "dict_get (Counter xs) y 0 = count_list xs y"
    by (simp add: snoc dict_get_def map_of_graph count_list_0_iff)
  show ?case
    unfolding Counter_snoc get
    by (subst snoc) (auto simp: dict_set_graph [OF d])
qed

lemma remdups_app: "remdups (xs @ ys) = filter (\<lambda>x. x \<notin> set ys) (remdups xs) @ remdups ys"
  by (induction xs) auto

lemma first_seen_split:
  assumes "l \<notin> set p"
  shows "rev (remdups (rev (p @ l # q))) =
           rev (remdups (rev p)) @ l # rev (remdups (filter (\<lambda>x. x \<noteq> l \<and> x \<notin> set p) (rev q)))"
  using assms by (simp add: remdups_app remdups_filter)

lemma distinct_split_unique:
  assumes "distinct (a @ x # b)" and "a @ x # b = a' @ x # b'"
  shows "a = a'"
  using assms
  by (metis append_Cons_eq_iff distinct.simps(2) distinct_append not_distinct_conv_prefix)

lemma most_common1_first:
  assumes "xs \<noteq> []"
  shows "\<exists>l p q. most_common1 xs = Inr l \<and> xs = p @ l # q \<and> l \<notin> set p
           \<and> (\<forall>x\<in>set p. count_list xs x < count_list xs l)
           \<and> (\<forall>x\<in>set xs. count_list xs x \<le> count_list xs l)"
proof -
  let ?ks = "rev (remdups (rev xs))"
  let ?g = "\<lambda>x. (x, count_list xs x)"
  have ne: "map ?g ?ks \<noteq> []" using assms by simp
  from py_max_by_first [OF ne, of snd]
  obtain m pre post where m: "py_max_by snd (map ?g ?ks) = Inr m"
    and dec: "map ?g ?ks = pre @ m # post"
    and lt: "\<forall>a\<in>set pre. snd a < snd m" and le: "\<forall>a\<in>set post. snd a \<le> snd m"
    by blast
  have all_le: "\<forall>a\<in>set (map ?g ?ks). snd a \<le> snd m"
    using py_max_by_Inr(2) [OF m] .
  have m_in: "m \<in> set (map ?g ?ks)" using py_max_by_Inr(1) [OF m] .
  then have m_eq: "m = (fst m, count_list xs (fst m))" and l_in: "fst m \<in> set xs" by auto
  from split_list_first [OF l_in] obtain p q where xs: "xs = p @ fst m # q" and np: "fst m \<notin> set p"
    by blast
  have ks: "?ks = rev (remdups (rev p)) @ fst m # rev (remdups (filter (\<lambda>x. x \<noteq> fst m \<and> x \<notin> set p) (rev q)))"
    unfolding xs using first_seen_split [OF np] by simp
  have keys: "?ks = map fst pre @ fst m # map fst post"
  proof -
    have "map fst (map ?g ?ks) = ?ks" by (simp add: comp_def)
    with dec show ?thesis by (metis list.simps(9) map_append)
  qed
  have "distinct ?ks" by simp
  with keys ks have pre_keys: "map fst pre = rev (remdups (rev p))"
    by (metis (no_types, lifting) distinct_split_unique)
  have pre_lt: "\<forall>x\<in>set p. count_list xs x < count_list xs (fst m)"
  proof
    fix x assume "x \<in> set p"
    then have "x \<in> set (map fst pre)" by (simp add: pre_keys)
    then obtain a where a: "a \<in> set pre" "fst a = x" by auto
    then have "a \<in> set (map ?g ?ks)" by (simp add: dec)
    then have "snd a = count_list xs x" using a by auto
    moreover have "snd a < snd m" using lt a by blast
    moreover have "snd m = count_list xs (fst m)" using m_eq by (metis snd_conv)
    ultimately show "count_list xs x < count_list xs (fst m)" by simp
  qed
  have all: "\<forall>x\<in>set xs. count_list xs x \<le> count_list xs (fst m)"
  proof
    fix x assume "x \<in> set xs"
    then have "?g x \<in> set (map ?g ?ks)" by simp
    then have "snd (?g x) \<le> snd m" using all_le by blast
    moreover have "snd m = count_list xs (fst m)" using m_eq by (metis snd_conv)
    ultimately show "count_list xs x \<le> count_list xs (fst m)" by simp
  qed
  have "most_common1 xs = Inr (fst m)"
    by (simp add: most_common1_def most_common_1_def Counter_eq m)
  with xs np pre_lt all show ?thesis by blast
qed

section \<open>Averages, candidates and the state invariant\<close>

lemma foldl_dict_set_distinct:
  "distinct (map fst d @ ks) \<Longrightarrow>
     foldl (\<lambda>acc k. dict_set acc k (f k)) d ks = d @ map (\<lambda>k. (k, f k)) ks"
proof (induction ks arbitrary: d)
  case Nil
  show ?case by simp
next
  case (Cons k ks)
  from Cons.prems have new: "k \<notin> fst ` set d" by auto
  from Cons.prems have "distinct (map fst (d @ [(k, f k)]) @ ks)" by auto
  from Cons.IH [OF this] show ?case by (simp add: dict_set_new [OF new])
qed

lemma average_emotions_distinct:
  "distinct emos \<Longrightarrow> average_emotions emos results = map (\<lambda>l. (l, mean_score results l)) emos"
  unfolding average_emotions_def mean_score_def Let_def length_map
  using foldl_dict_set_distinct [of "[]" emos] by simp

lemma distinct_emotion_labels: "distinct emotion_labels"
  by (simp add: emotion_labels_def)

lemma average_emotions_labels: "average_emotions emotion_labels results = averages results"
  by (simp add: average_emotions_distinct distinct_emotion_labels averages_def)

lemma map_of_averages:
  "map_of (averages results) l = (if l \<in> set emotion_labels then Some (mean_score results l) else None)"
  unfolding averages_def by (rule map_of_graph)

lemma keys_weighted: "map fst (weighted_emotions w avg) = map fst avg"
  by (simp add: weighted_emotions_def case_prod_beta comp_def)

lemma push_history_set: "set (push_history h c w) \<subseteq> insert c (set h)"
  by (cases h) (auto simp: push_history_def Let_def)

lemma push_history_length: "length h \<le> 2 \<Longrightarrow> length (push_history h c 2) \<le> 2"
  by (auto simp: push_history_def Let_def)

lemma push_history_nonempty: "length h \<le> 2 \<Longrightarrow> push_history h c 2 \<noteq> []"
  by (cases h) (auto simp: push_history_def Let_def)

lemma dominant_emotion_label:
  assumes "dominant_emotion s results = Inr d" and "emotions s = emotion_labels"
  shows "fst d \<in> set emotion_labels"
proof -
  let ?w = "weighted_emotions (emotion_weights s) (averages results)"
  from assms have "py_max_by snd ?w = Inr d"
    by (simp add: dominant_emotion_def average_emotions_labels)
  from py_max_by_Inr(1) [OF this] have "fst d \<in> set (map fst ?w)" by simp
  then show ?thesis by (simp add: keys_weighted averages_def comp_def)
qed

lemma dominant_emotion_exists:
  assumes "emotions s = emotion_labels"
  shows "\<exists>d. dominant_emotion s results = Inr d"
proof -
  have "weighted_emotions (emotion_weights s) (averages results) \<noteq> []"
    by (simp add: weighted_emotions_def averages_def emotion_labels_def)
  from py_max_by_first [OF this, of snd] show ?thesis
    by (auto simp: dominant_emotion_def assms average_emotions_labels)
qed

lemma stabilize_state:
  "fst (stabilize s results) = s \<or>
   (\<exists>d. dominant_emotion s results = Inr d \<and>
      fst (stabilize s results) =
        s\<lparr>previous_emotions := push_history (previous_emotions s) (fst d) (smooth_window s)\<rparr>)"
  by (auto simp: stabilize_def Let_def split: sum.splits)

lemma analyze_emotion_state:
  "fst (analyze_emotion ext s face_img) =
     (case snd (acquire ext face_img) of Continue results \<Rightarrow> fst (stabilize s results) | _ \<Rightarrow> s)"
  by (auto simp: analyze_emotion_def analyze_emotion_body_def split: prod.splits flow.splits sum.splits)

lemma state_ok_init: "state_ok init"
  by (simp add: state_ok_def init_def)

lemma state_ok_stabilize:
  assumes "state_ok s"
  shows "state_ok (fst (stabilize s results))"
proof -
  from stabilize_state [of s results] show ?thesis
  proof
    assume "fst (stabilize s results) = s"
    with assms show ?thesis by simp
  next
    assume "\<exists>d. dominant_emotion s results = Inr d \<and>
      fst (stabilize s results) =
        s\<lparr>previous_emotions := push_history (previous_emotions s) (fst d) (smooth_window s)\<rparr>"
    then obtain d where d: "dominant_emotion s results = Inr d"
      and st: "fst (stabilize s results) =
        s\<lparr>previous_emotions := push_history (previous_emotions s) (fst d) (smooth_window s)\<rparr>"
      by blast
    from assms have emos: "emotions s = emotion_labels" and win: "smooth_window s = 2"
      and len: "length (previous_emotions s) \<le> 2"
      and labs: "set (previous_emotions s) \<subseteq> set emotion_labels"
      by (auto simp: state_ok_def list_all_iff)
    have c: "fst d \<in> set emotion_labels" using dominant_emotion_label [OF d emos] .
    have "set (push_history (previous_emotions s) (fst d) 2) \<subseteq> set emotion_labels"
      using push_history_set [of "previous_emotions s" "fst d" 2] c labs by blast
    with assms push_history_length [OF len, of "fst d"] show ?thesis
      unfolding st win by (simp add: state_ok_def list_all_iff subset_iff)
  qed
qed

lemma state_ok_analyze_emotion:
  "state_ok s \<Longrightarrow> state_ok (fst (analyze_emotion ext s face_img))"
  unfolding analyze_emotion_state
  by (simp add: state_ok_stabilize split: flow.splits)

lemma reachable_state_ok: "reachable s \<Longrightarrow> state_ok s"
  by (induction rule: reachable.induct) (simp_all add: state_ok_init state_ok_analyze_emotion)

lemma acquire_Continue_nonempty: "acquire ext face_img = (ev, Continue results) \<Longrightarrow> results \<noteq> []"
  by (auto simp: acquire_def classify_def Let_def
      split: option.splits if_splits prod.splits sum.splits)

text \<open>What lines 96 to 135 do on a state that satisfies the invariant.\<close>

lemma stabilize_ok:
  assumes ok: "state_ok s" and ne: "results \<noteq> []"
  shows "\<exists>c w l. dominant_emotion s results = Inr (c, w) \<and> c \<in> set emotion_labels
           \<and> most_common1 (push_history (previous_emotions s) c 2) = Inr l
           \<and> l \<in> set emotion_labels
           \<and> stabilize s results =
               (s\<lparr>previous_emotions := push_history (previous_emotions s) c 2\<rparr>,
                Inr (neutral_override (averages results) (l, fdiv (mean_score results l) 100)))"
proof -
  from ok have emos: "emotions s = emotion_labels" and win: "smooth_window s = 2"
    and len: "length (previous_emotions s) \<le> 2"
    and labs: "set (previous_emotions s) \<subseteq> set emotion_labels"
    by (auto simp: state_ok_def list_all_iff)
  from dominant_emotion_exists [OF emos] obtain c w where d: "dominant_emotion s results = Inr (c, w)"
    by (metis surj_pair)
  have c: "c \<in> set emotion_labels" using dominant_emotion_label [OF d emos] by simp
  let ?h = "push_history (previous_emotions s) c 2"
  have hne: "?h \<noteq> []" using push_history_nonempty [OF len] .
  from most_common1_first [OF hne] obtain l where l: "most_common1 ?h = Inr l" and "l \<in> set ?h"
    by auto
  then have lin: "l \<in> set emotion_labels"
    using push_history_set [of "previous_emotions s" c 2] c labs by blast
  have "stabilize s results =
          (s\<lparr>previous_emotions := ?h\<rparr>,
           Inr (neutral_override (averages results) (l, fdiv (mean_score results l) 100)))"
    using ne by (simp add: stabilize_def d emos win average_emotions_labels smooth_def hne l
        dict_item_def map_of_averages lin)
  with d c l lin show ?thesis by blast
qed

section \<open>Effect of a call on the state\<close>

text \<open>The definitions a concrete run unfolds.\<close>

lemmas run_defs =
  analyze_emotion_def analyze_emotion_body_def acquire_def classify_def attempt_def
  first_emotion_def ensure_min_size_def below_min_size_def shape_at_def min_size_def
  array_size_def enhance_contrast_def stabilize_def dominant_emotion_def
  weighted_emotions_def weight_get_def average_emotions_def push_history_def smooth_def
  neutral_override_def most_common1_def most_common_1_def Counter_def py_max_by_def
  dict_item_def dict_get_def init_def emotion_labels_def default_weights_def
  frame_candidate_def stub_externals_def face_def image_def
  fadd_def fmul_def fdiv_def py_sum_def Let_def float_defs

lemma acquire_Continue:
  assumes "snd (acquire ext face_img) = Continue results"
  shows "results \<noteq> []"
  using acquire_Continue_nonempty [of ext face_img "fst (acquire ext face_img)" results] assms
  by (metis prod.collapse)

lemma analyze_emotion_history:
  "previous_emotions (fst (analyze_emotion ext s face_img)) =
     (case frame_candidate ext s face_img of
        None \<Rightarrow> previous_emotions s
      | Some c \<Rightarrow> push_history (previous_emotions s) c (smooth_window s))"
proof (cases "snd (acquire ext face_img)")
  case (Continue results)
  then have "results \<noteq> []" by (rule acquire_Continue)
  then show ?thesis
    by (simp add: analyze_emotion_state frame_candidate_def Continue stabilize_def Let_def
        split: sum.splits)
qed (simp_all add: analyze_emotion_state frame_candidate_def)

lemma analyze_emotion_frame:
  "emotions (fst (analyze_emotion ext s face_img)) = emotions s
   \<and> smooth_window (fst (analyze_emotion ext s face_img)) = smooth_window s
   \<and> emotion_weights (fst (analyze_emotion ext s face_img)) = emotion_weights s"
  by (simp add: analyze_emotion_state stabilize_def Let_def split: flow.splits sum.splits)

lemma push_history_2:
  "length h \<le> 2 \<Longrightarrow> push_history h c 2 = (if length h < 2 then h @ [c] else tl h @ [c])"
  by (cases h) (auto simp: push_history_def Let_def)

lemma reachable_history:
  assumes "reachable s" and "frame_candidate ext s face_img = Some c"
  shows "previous_emotions (fst (analyze_emotion ext s face_img)) =
           (if length (previous_emotions s) < 2 then previous_emotions s @ [c]
            else tl (previous_emotions s) @ [c])"
proof -
  from reachable_state_ok [OF assms(1)]
  have "smooth_window s = 2" and "length (previous_emotions s) \<le> 2"
    by (simp_all add: state_ok_def)
  then show ?thesis
    by (simp add: analyze_emotion_history assms(2) push_history_2)
qed

section \<open>The smoothing history\<close>

text \<open>
  Claim C3. After every call the history holds at most \<open>W = 2\<close> labels, and it is a
  queue: after two calls with candidates \<open>A\<close> and \<open>B\<close>, the history is \<open>[A, B]\<close>, and
  a third call with candidate \<open>C\<close> leaves \<open>[B, C]\<close>.
\<close>

theorem history_bounded_fifo:
  assumes "reachable s0"
    and "frame_candidate ext1 s0 img1 = Some A" and "s1 = fst (analyze_emotion ext1 s0 img1)"
    and "frame_candidate ext2 s1 img2 = Some B" and "s2 = fst (analyze_emotion ext2 s1 img2)"
    and "frame_candidate ext3 s2 img3 = Some C" and "s3 = fst (analyze_emotion ext3 s2 img3)"
  shows "length (previous_emotions (fst (analyze_emotion ext s0 face_img))) \<le> 2
         \<and> smooth_window s0 = 2
         \<and> previous_emotions s2 = [A, B]
         \<and> previous_emotions s3 = [B, C]"
proof -
  have r1: "reachable s1" unfolding assms(3) using assms(1) by (rule reachable.call)
  have r2: "reachable s2" unfolding assms(5) using r1 by (rule reachable.call)
  have "reachable (fst (analyze_emotion ext s0 face_img))" using assms(1) by (rule reachable.call)
  from reachable_state_ok [OF this]
  have bound: "length (previous_emotions (fst (analyze_emotion ext s0 face_img))) \<le> 2"
    by (simp add: state_ok_def)
  have win: "smooth_window s0 = 2" using reachable_state_ok [OF assms(1)] by (simp add: state_ok_def)
  have len0: "length (previous_emotions s0) \<le> 2"
    using reachable_state_ok [OF assms(1)] by (simp add: state_ok_def)
  have h1: "previous_emotions s1 =
      (if length (previous_emotions s0) < 2 then previous_emotions s0 @ [A]
       else tl (previous_emotions s0) @ [A])"
    unfolding assms(3) using assms(1,2) by (rule reachable_history)
  have h2: "previous_emotions s2 =
      (if length (previous_emotions s1) < 2 then previous_emotions s1 @ [B]
       else tl (previous_emotions s1) @ [B])"
    unfolding assms(5) using r1 assms(4) by (rule reachable_history)
  have h3: "previous_emotions s3 =
      (if length (previous_emotions s2) < 2 then previous_emotions s2 @ [C]
       else tl (previous_emotions s2) @ [C])"
    unfolding assms(7) using r2 assms(6) by (rule reachable_history)
  have two: "previous_emotions s2 = [A, B]"
  proof (cases "previous_emotions s0")
    case Nil
    then show ?thesis by (simp add: h1 h2)
  next
    case (Cons x xs)
    with len0 have "xs = [] \<or> (\<exists>y. xs = [y])" by (cases xs) auto
    with Cons show ?thesis by (auto simp: h1 h2)
  qed
  then have "previous_emotions s3 = [B, C]" by (simp add: h3)
  with bound win two show ?thesis by simp
qed

theorem history_bounded_fifo_witness:
  "reachable init
   \<and> frame_candidate (likely ''happy'') init (Some (image [120, 100, 3])) = Some ''happy''
   \<and> previous_emotions
        (fst (analyze_emotion (likely ''angry'')
           (fst (analyze_emotion (likely ''sad'')
              (fst (analyze_emotion (likely ''happy'') init (Some (image [120, 100, 3]))))
              (Some (image [120, 100, 3]))))
           (Some (image [120, 100, 3])))) = [''sad'', ''angry'']"
proof -
  let ?img = "Some (image [120, 100, 3])"
  let ?s1 = "fst (analyze_emotion (likely ''happy'') init ?img)"
  let ?s2 = "fst (analyze_emotion (likely ''sad'') ?s1 ?img)"
  have s1: "?s1 = init\<lparr>previous_emotions := [''happy'']\<rparr>"
    by (simp add: run_defs likely_def)
  have s2: "?s2 = init\<lparr>previous_emotions := [''happy'', ''sad'']\<rparr>"
    unfolding s1 by (simp add: run_defs likely_def)
  have c1: "frame_candidate (likely ''happy'') init ?img = Some ''happy''"
    by (simp add: run_defs likely_def)
  have c2: "frame_candidate (likely ''sad'') ?s1 ?img = Some ''sad''"
    unfolding s1 by (simp add: run_defs likely_def)
  have c3: "frame_candidate (likely ''angry'') ?s2 ?img = Some ''angry''"
    unfolding s2 by (simp add: run_defs likely_def)
  from history_bounded_fifo [OF reachable.fresh c1 refl c2 refl c3 refl]
  show ?thesis using c1 by (simp add: reachable.fresh)
qed

lemma body_raises_only_early:
  assumes "state_ok s" and "analyze_emotion_body ext s face_img = (s', ev, Inl e)"
  shows "acquire ext face_img = (ev, Raise e)"
proof (cases "acquire ext face_img")
  case (Pair ev0 fl)
  show ?thesis
  proof (cases fl)
    case (Continue results)
    from acquire_Continue_nonempty Pair Continue have "results \<noteq> []" by blast
    from stabilize_ok [OF assms(1) this] obtain st out where "stabilize s results = (st, Inr out)"
      by blast
    with assms(2) Pair Continue show ?thesis by (simp add: analyze_emotion_body_def)
  qed (use assms(2) Pair in \<open>simp_all add: analyze_emotion_body_def\<close>)
qed

section \<open>The labels in the history\<close>

text \<open>
  Claim C10. Every label in the history is one of the 7 emotion labels: the candidate
  that a call appends is a key of the averaged-score mapping, which is built over those
  labels. So the lookup of the smoothed label's averaged score finds its key: lines 96 to
  135 raise nothing, and whatever the body raises was raised before line 96.
\<close>

theorem history_labels_lookup_safe:
  assumes "reachable s"
  shows "set (previous_emotions s) \<subseteq> set emotion_labels
     \<and> (results \<noteq> [] \<longrightarrow>
          (\<exists>c w l out. dominant_emotion s results = Inr (c, w) \<and> c \<in> set emotion_labels
             \<and> most_common1 (push_history (previous_emotions s) c 2) = Inr l
             \<and> l \<in> set emotion_labels
             \<and> dict_item (average_emotions (emotions s) results) l = Inr (mean_score results l)
             \<and> stabilize s results =
                 (s\<lparr>previous_emotions := push_history (previous_emotions s) c 2\<rparr>, Inr out)))
     \<and> (analyze_emotion_body ext s face_img = (s', ev, Inl e) \<longrightarrow>
          acquire ext face_img = (ev, Raise e))"
proof -
  have ok: "state_ok s" using assms by (rule reachable_state_ok)
  then have labs: "set (previous_emotions s) \<subseteq> set emotion_labels"
    and emos: "emotions s = emotion_labels"
    by (auto simp: state_ok_def list_all_iff)
  have step: "\<exists>c w l out. dominant_emotion s results = Inr (c, w) \<and> c \<in> set emotion_labels
             \<and> most_common1 (push_history (previous_emotions s) c 2) = Inr l
             \<and> l \<in> set emotion_labels
             \<and> dict_item (average_emotions (emotions s) results) l = Inr (mean_score results l)
             \<and> stabilize s results =
                 (s\<lparr>previous_emotions := push_history (previous_emotions s) c 2\<rparr>, Inr out)"
    if ne: "results \<noteq> []"
  proof -
    from stabilize_ok [OF ok ne] obtain c w l where
      d: "dominant_emotion s results = Inr (c, w)" and c: "c \<in> set emotion_labels"
      and l: "most_common1 (push_history (previous_emotions s) c 2) = Inr l"
      and lin: "l \<in> set emotion_labels"
      and st: "stabilize s results =
               (s\<lparr>previous_emotions := push_history (previous_emotions s) c 2\<rparr>,
                Inr (neutral_override (averages results) (l, fdiv (mean_score results l) 100)))"
      by blast
    have "dict_item (average_emotions (emotions s) results) l = Inr (mean_score results l)"
      by (simp add: emos average_emotions_labels dict_item_def map_of_averages lin)
    with d c l lin st show ?thesis by blast
  qed
  from labs step body_raises_only_early [OF ok] show ?thesis by blast
qed

theorem history_labels_lookup_safe_witness:
  "reachable init
   \<and> stabilize init [map_of [(''fear'', 64)]] = (init\<lparr>previous_emotions := [''fear'']\<rparr>, Inr (''fear'', py_float 0.64))
   \<and> analyze_emotion_body deaf init (Some (image [200])) = (init, [], Inl IndexError)
   \<and> acquire deaf (Some (image [200])) = ([], Raise IndexError)"
proof -
  have body: "analyze_emotion_body deaf init (Some (image [200])) = (init, [], Inl IndexError)"
    by (simp add: run_defs deaf_def)
  have st: "stabilize init [map_of [(''fear'', 64)]] = (init\<lparr>previous_emotions := [''fear'']\<rparr>, Inr (''fear'', py_float 0.64))"
    by (simp add: run_defs)
  from history_labels_lookup_safe [OF reachable.fresh, of "[map_of [(''fear'', 64)]]" deaf
      "Some (image [200])" init "[]" IndexError] body st
  show ?thesis by (simp add: reachable.fresh)
qed

section \<open>What a call changes\<close>

text \<open>
  Claim C6 as stated says that every call appends the frame's candidate to the history.
  A call that returns before line 109 has no candidate and appends nothing: a call without
  an image, and a call on an image for which both classifier attempts fail.
\<close>

theorem call_without_candidate_appends_nothing:
  "\<not> (\<exists>c. previous_emotions (fst (analyze_emotion (likely ''happy'') init None)) =
             push_history (previous_emotions init) c (smooth_window init))
   \<and> \<not> (\<exists>c. previous_emotions (fst (analyze_emotion deaf init (Some (image [120, 100, 3])))) =
             push_history (previous_emotions init) c (smooth_window init))"
  by (simp add: run_defs deaf_def likely_def Let_def)

lemma frame_candidate_None:
  assumes "state_ok s"
  shows "frame_candidate ext s face_img = None \<longleftrightarrow>
           (\<forall>results. snd (acquire ext face_img) \<noteq> Continue results)"
proof (cases "snd (acquire ext face_img)")
  case (Continue results)
  from assms have "emotions s = emotion_labels" by (simp add: state_ok_def)
  from dominant_emotion_exists [OF this, of results] show ?thesis
    by (auto simp: frame_candidate_def Continue)
qed (simp_all add: frame_candidate_def)

text \<open>
  Claim C6, amended. A call that gets at least one raw score mapping appends its candidate
  to the history, dropping the oldest label when two are already there; any other call
  leaves the history as it is. No call changes the weight table, the label list or the
  window size.
\<close>

theorem call_frame_effect:
  assumes "reachable s" and "s' = fst (analyze_emotion ext s face_img)"
  shows "emotion_weights s' = emotion_weights s \<and> emotions s' = emotions s
     \<and> smooth_window s' = smooth_window s
     \<and> previous_emotions s' =
         (case frame_candidate ext s face_img of
            None \<Rightarrow> previous_emotions s
          | Some c \<Rightarrow>
              if length (previous_emotions s) < 2 then previous_emotions s @ [c]
              else tl (previous_emotions s) @ [c])
     \<and> (frame_candidate ext s face_img = None \<longleftrightarrow>
          (\<forall>results. snd (acquire ext face_img) \<noteq> Continue results))"
proof -
  have ok: "state_ok s" using assms(1) by (rule reachable_state_ok)
  have hist: "previous_emotions s' =
         (case frame_candidate ext s face_img of
            None \<Rightarrow> previous_emotions s
          | Some c \<Rightarrow>
              if length (previous_emotions s) < 2 then previous_emotions s @ [c]
              else tl (previous_emotions s) @ [c])"
  proof (cases "frame_candidate ext s face_img")
    case None
    then show ?thesis by (simp add: assms(2) analyze_emotion_history)
  next
    case (Some c)
    with reachable_history [OF assms(1) Some] show ?thesis by (simp add: assms(2))
  qed
  from analyze_emotion_frame [of ext s face_img] hist frame_candidate_None [OF ok]
  show ?thesis by (simp add: assms(2))
qed

theorem call_frame_effect_witness:
  "reachable init
   \<and> frame_candidate (likely ''sad'') init (Some (image [120, 100, 3])) = Some ''sad''
   \<and> previous_emotions (fst (analyze_emotion (likely ''sad'') init (Some (image [120, 100, 3])))) =
       [''sad'']
   \<and> emotion_weights (fst (analyze_emotion (likely ''sad'') init (Some (image [120, 100, 3])))) =
       default_weights
   \<and> frame_candidate deaf init (Some (image [120, 100, 3])) = None
   \<and> previous_emotions (fst (analyze_emotion deaf init (Some (image [120, 100, 3])))) = []"
proof -
  have c: "frame_candidate (likely ''sad'') init (Some (image [120, 100, 3])) = Some ''sad''"
    by (simp add: run_defs likely_def)
  have n: "frame_candidate deaf init (Some (image [120, 100, 3])) = None"
    by (simp add: run_defs deaf_def)
  have h0: "previous_emotions init = []" "emotion_weights init = default_weights"
    by (simp_all add: init_def)
  from call_frame_effect [OF reachable.fresh refl, of "likely ''sad''" "Some (image [120, 100, 3])"]
    call_frame_effect [OF reachable.fresh refl, of deaf "Some (image [120, 100, 3])"]
  show ?thesis unfolding c n by (simp add: reachable.fresh h0)
qed

section \<open>Early returns\<close>

text \<open>
  Claim C7. Without an image, or with an empty one, the call returns
  \<open>(neutral, 0.0)\<close> at once: it changes nothing and calls no library, so the classifier
  is not invoked. When both classifier attempts fail, the call returns
  \<open>(neutral, 0.0)\<close> too, after the two invocations and their warnings.
\<close>

theorem absent_or_failed_is_neutral_zero:
  "(face_img = None \<or> (\<exists>img. face_img = Some img \<and> array_size img = 0)
      \<longrightarrow> analyze_emotion ext s face_img = (s, [], ''neutral'', 0))
   \<and> (face_img = Some img \<and> array_size img \<noteq> 0
        \<and> ensure_min_size ext img = (ev, Inr sized)
        \<and> enhance_contrast ext sized = Inr enhanced
        \<and> first_emotion ext enhanced None = Inl e1
        \<and> first_emotion ext enhanced (Some ''opencv'') = Inl e2
      \<longrightarrow> analyze_emotion ext s face_img =
            (s,
             ev @ [CallAnalyze enhanced None, LogWarning ''First attempt failed: '' e1,
                   CallAnalyze enhanced (Some ''opencv''),
                   LogWarning ''Second attempt failed: '' e2],
             ''neutral'', 0))"
  by (auto simp: analyze_emotion_def analyze_emotion_body_def acquire_def classify_def
      attempt_def)

theorem absent_or_failed_is_neutral_zero_witness:
  "analyze_emotion (likely ''happy'') init None = (init, [], ''neutral'', 0)
   \<and> array_size (image [0, 0, 3]) = 0
   \<and> analyze_emotion (likely ''happy'') init (Some (image [0, 0, 3])) = (init, [], ''neutral'', 0)
   \<and> first_emotion deaf (image [120, 100, 3]) None = Inl IndexError
   \<and> first_emotion deaf (image [120, 100, 3]) (Some ''opencv'') = Inl (LibraryError ''no face'')
   \<and> snd (snd (analyze_emotion deaf init (Some (image [120, 100, 3])))) = (''neutral'', 0)"
proof -
  have a: "array_size (image [0, 0, 3]) = 0" "array_size (image [120, 100, 3]) \<noteq> 0"
    by (simp_all add: array_size_def image_def)
  have b: "ensure_min_size deaf (image [120, 100, 3]) = ([], Inr (image [120, 100, 3]))"
    by (simp add: ensure_min_size_def below_min_size_def shape_at_def min_size_def image_def)
  have c: "enhance_contrast deaf (image [120, 100, 3]) = Inr (image [120, 100, 3])"
    by (simp add: enhance_contrast_def deaf_def stub_externals_def image_def)
  have d: "first_emotion deaf (image [120, 100, 3]) None = Inl IndexError"
    "first_emotion deaf (image [120, 100, 3]) (Some ''opencv'') = Inl (LibraryError ''no face'')"
    by (simp_all add: first_emotion_def deaf_def stub_externals_def)
  from absent_or_failed_is_neutral_zero [of None "likely ''happy''" init]
    absent_or_failed_is_neutral_zero [of "Some (image [0, 0, 3])" "likely ''happy''" init]
    absent_or_failed_is_neutral_zero [of "Some (image [120, 100, 3])" deaf init
      "image [120, 100, 3]" "[]" "image [120, 100, 3]" "image [120, 100, 3]"
      IndexError "LibraryError ''no face''"]
  show ?thesis by (simp add: a b c d)
qed

section \<open>Unexpected failures\<close>

lemma acquire_raises:
  assumes "face_img = Some img" and "array_size img \<noteq> 0"
    and "snd (ensure_min_size ext img) = Inl e
         \<or> (\<exists>sized. snd (ensure_min_size ext img) = Inr sized \<and> enhance_contrast ext sized = Inl e)"
  shows "snd (acquire ext face_img) = Raise e"
  using assms by (auto simp: acquire_def classify_def split: prod.splits sum.splits)

text \<open>
  Claim C8. Whatever the body of the outer \<^verbatim>\<open>try\<close> raises is caught: the call logs
  an error and returns \<open>(neutral, 0.1)\<close>, which is not the \<open>(neutral, 0.0)\<close> of a
  total classifier failure; a body that returns is passed on with no error logged. The
  body raises when the size check, the resizing or the contrast enhancement raises, and
  when lines 96 to 135 do.
\<close>

theorem unexpected_failure_is_neutral_tenth:
  "(analyze_emotion_body ext s face_img = (s', ev, Inl e) \<longrightarrow>
      analyze_emotion ext s face_img =
        (s', ev @ [LogError ''Error in emotion analysis: '' e], ''neutral'', py_float 0.1)
      \<and> snd (snd (analyze_emotion ext s face_img)) \<noteq> (''neutral'', 0.0))
   \<and> (analyze_emotion_body ext s face_img = (s', ev, Inr out) \<longrightarrow>
        analyze_emotion ext s face_img = (s', ev, out))
   \<and> (face_img = Some img \<and> array_size img \<noteq> 0
        \<and> (snd (ensure_min_size ext img) = Inl e
             \<or> (\<exists>sized. snd (ensure_min_size ext img) = Inr sized
                   \<and> enhance_contrast ext sized = Inl e))
      \<longrightarrow> analyze_emotion_body ext s face_img = (s, fst (acquire ext face_img), Inl e))
   \<and> (acquire ext face_img = (ev, Continue results) \<and> stabilize s results = (s', Inl e)
      \<longrightarrow> analyze_emotion_body ext s face_img = (s', ev, Inl e))"
proof -
  have "analyze_emotion_body ext s face_img = (s, fst (acquire ext face_img), Inl e)"
    if "face_img = Some img" and "array_size img \<noteq> 0"
      and "snd (ensure_min_size ext img) = Inl e
         \<or> (\<exists>sized. snd (ensure_min_size ext img) = Inr sized \<and> enhance_contrast ext sized = Inl e)"
  proof -
    from acquire_raises [OF that] obtain ev0 where acq: "acquire ext face_img = (ev0, Raise e)"
      by (metis prod.collapse)
    show ?thesis by (simp add: analyze_emotion_body_def acq)
  qed
  then show ?thesis
    by (auto simp: analyze_emotion_def analyze_emotion_body_def)
qed

theorem unexpected_failure_is_neutral_tenth_witness:
  "array_size (image [50, 50, 3]) \<noteq> 0
   \<and> snd (ensure_min_size no_resize (image [50, 50, 3])) = Inl (LibraryError ''resize'')
   \<and> analyze_emotion no_resize init (Some (image [50, 50, 3])) =
       (init,
        [CallResize (image [50, 50, 3]) (96, 96), LogError ''Error in emotion analysis: '' (LibraryError ''resize'')],
        ''neutral'', py_float 0.1)
   \<and> analyze_emotion_body (likely ''happy'') init (Some (image [200])) = (init, [], Inl IndexError)
   \<and> analyze_emotion (likely ''happy'') init (Some (image [200])) =
       (init, [LogError ''Error in emotion analysis: '' IndexError], ''neutral'', py_float 0.1)"
proof -
  have a: "array_size (image [50, 50, 3]) \<noteq> 0" by (simp add: array_size_def image_def)
  have b: "ensure_min_size no_resize (image [50, 50, 3]) =
             ([CallResize (image [50, 50, 3]) (96, 96)], Inl (LibraryError ''resize''))"
    by (simp add: ensure_min_size_def below_min_size_def shape_at_def min_size_def image_def
        no_resize_def)
  have c: "acquire no_resize (Some (image [50, 50, 3])) =
             ([CallResize (image [50, 50, 3]) (96, 96)], Raise (LibraryError ''resize''))"
    by (simp add: acquire_def a b)
  have d: "analyze_emotion_body (likely ''happy'') init (Some (image [200])) = (init, [], Inl IndexError)"
    by (simp add: run_defs likely_def)
  note t1 = unexpected_failure_is_neutral_tenth [of no_resize init "Some (image [50, 50, 3])" init
      "[CallResize (image [50, 50, 3]) (96, 96)]" "LibraryError ''resize''" "(''neutral'', 0)"
      "image [50, 50, 3]" "[]"]
  note t2 = unexpected_failure_is_neutral_tenth [of "likely ''happy''" init "Some (image [200])" init
      "[]" IndexError "(''neutral'', 0)" "image [200]" "[]"]
  from t1 t2 show ?thesis by (simp add: a b c d)
qed

section \<open>The minimum size\<close>

lemma below_min_size_2d:
  "shape img = h # w # rest \<Longrightarrow> below_min_size img = Inr (h < 96 \<or> w < 96)"
  by (simp add: below_min_size_def shape_at_def min_size_def)

lemma classify_events:
  "(\<forall>i d. CallResize i d \<notin> set (fst (classify ext sized)))
   \<and> (\<forall>i b. CallAnalyze i b \<in> set (fst (classify ext sized)) \<longrightarrow> enhance_contrast ext sized = Inr i)
   \<and> (\<forall>enhanced. enhance_contrast ext sized = Inr enhanced \<longrightarrow>
         CallAnalyze enhanced None \<in> set (fst (classify ext sized))
         \<and> CallAnalyze enhanced (Some ''opencv'') \<in> set (fst (classify ext sized)))"
  by (auto simp: classify_def attempt_def Let_def split: sum.splits prod.splits)

lemma analyze_emotion_events:
  "fst (snd (analyze_emotion ext s face_img)) = fst (acquire ext face_img)
   \<or> (\<exists>msg e. fst (snd (analyze_emotion ext s face_img)) = fst (acquire ext face_img) @ [LogError msg e])"
  by (auto simp: analyze_emotion_def analyze_emotion_body_def
      split: prod.splits flow.splits sum.splits)

text \<open>
  Claim C9. A non-empty image whose height or width is below 96 is resized to 96 by 96
  first, once, and is not turned away: when the resizing and the contrast enhancement
  return, both classifier attempts are made, on the enhanced resized image and on no
  other. An image with height and width at least 96 is not resized: the attempts are made
  on the enhanced image itself.
\<close>

theorem small_image_resized_not_rejected:
  assumes "face_img = Some img" and "array_size img \<noteq> 0" and "shape img = h # w # rest"
    and "events = fst (snd (analyze_emotion ext s face_img))"
  shows "(h < 96 \<or> w < 96 \<longrightarrow>
            (\<exists>later. events = CallResize img (96, 96) # later
               \<and> (\<forall>i d. CallResize i d \<notin> set later)
               \<and> (\<forall>sized enhanced.
                     cv2_resize ext img (96, 96) = Inr sized
                     \<and> enhance_contrast ext sized = Inr enhanced \<longrightarrow>
                       CallAnalyze enhanced None \<in> set later
                       \<and> CallAnalyze enhanced (Some ''opencv'') \<in> set later
                       \<and> (\<forall>i b. CallAnalyze i b \<in> set later \<longrightarrow> i = enhanced))))
       \<and> (96 \<le> h \<and> 96 \<le> w \<longrightarrow>
            (\<forall>i d. CallResize i d \<notin> set events)
            \<and> (\<forall>enhanced. enhance_contrast ext img = Inr enhanced \<longrightarrow>
                  CallAnalyze enhanced None \<in> set events
                  \<and> CallAnalyze enhanced (Some ''opencv'') \<in> set events
                  \<and> (\<forall>i b. CallAnalyze i b \<in> set events \<longrightarrow> i = enhanced)))"
proof (cases "h < 96 \<or> w < 96")
  case True
  have ens: "ensure_min_size ext img = ([CallResize img (96, 96)], cv2_resize ext img (96, 96))"
    using True by (simp add: ensure_min_size_def below_min_size_2d [OF assms(3)] min_size_def)
  show ?thesis
  proof (cases "cv2_resize ext img (96, 96)")
    case (Inl e)
    have "acquire ext face_img = ([CallResize img (96, 96)], Raise e)"
      by (simp add: acquire_def assms(1,2) ens Inl)
    then have "events = [CallResize img (96, 96), LogError ''Error in emotion analysis: '' e]"
      by (simp add: assms(4) analyze_emotion_def analyze_emotion_body_def)
    with True Inl show ?thesis by auto
  next
    case (Inr sized)
    have acq: "fst (acquire ext face_img) = CallResize img (96, 96) # fst (classify ext sized)"
      by (simp add: acquire_def assms(1,2) ens Inr split: prod.splits)
    from analyze_emotion_events [of ext s face_img]
    obtain extra where ev: "events = CallResize img (96, 96) # (fst (classify ext sized) @ extra)"
      and extra: "extra = [] \<or> (\<exists>msg e. extra = [LogError msg e])"
      unfolding acq assms(4) [symmetric] by auto
    from classify_events [of ext sized] extra
    have "(\<forall>i d. CallResize i d \<notin> set (fst (classify ext sized) @ extra))
       \<and> (\<forall>enhanced. enhance_contrast ext sized = Inr enhanced \<longrightarrow>
             CallAnalyze enhanced None \<in> set (fst (classify ext sized) @ extra)
             \<and> CallAnalyze enhanced (Some ''opencv'') \<in> set (fst (classify ext sized) @ extra)
             \<and> (\<forall>i b. CallAnalyze i b \<in> set (fst (classify ext sized) @ extra) \<longrightarrow> i = enhanced))"
      by auto
    with True Inr ev show ?thesis by auto
  qed
next
  case False
  have ens: "ensure_min_size ext img = ([], Inr img)"
    using False by (simp add: ensure_min_size_def below_min_size_2d [OF assms(3)])
  have acq: "fst (acquire ext face_img) = fst (classify ext img)"
    by (simp add: acquire_def assms(1,2) ens split: prod.splits)
  from analyze_emotion_events [of ext s face_img]
  obtain extra where ev: "events = fst (classify ext img) @ extra"
    and extra: "extra = [] \<or> (\<exists>msg e. extra = [LogError msg e])"
    unfolding acq assms(4) [symmetric] by auto
  from classify_events [of ext img] extra
  have "(\<forall>i d. CallResize i d \<notin> set events)
     \<and> (\<forall>enhanced. enhance_contrast ext img = Inr enhanced \<longrightarrow>
           CallAnalyze enhanced None \<in> set events
           \<and> CallAnalyze enhanced (Some ''opencv'') \<in> set events
           \<and> (\<forall>i b. CallAnalyze i b \<in> set events \<longrightarrow> i = enhanced))"
    unfolding ev by auto
  with False show ?thesis by auto
qed

theorem small_image_resized_not_rejected_witness:
  "array_size (image [50, 200, 3]) \<noteq> 0
   \<and> analyze_emotion (likely ''happy'') init (Some (image [50, 200, 3])) =
       (init\<lparr>previous_emotions := [''happy'']\<rparr>,
        [CallResize (image [50, 200, 3]) (96, 96),
         CallAnalyze (image [96, 96, 3]) None,
         CallAnalyze (image [96, 96, 3]) (Some ''opencv''),
         LogWarning ''Second attempt failed: '' (LibraryError ''no face'')],
        ''happy'', py_float 0.8)
   \<and> array_size (image [120, 100, 3]) \<noteq> 0
   \<and> fst (snd (analyze_emotion (likely ''happy'') init (Some (image [120, 100, 3])))) =
        [CallAnalyze (image [120, 100, 3]) None,
         CallAnalyze (image [120, 100, 3]) (Some ''opencv''),
         LogWarning ''Second attempt failed: '' (LibraryError ''no face'')]"
proof -
  have a: "array_size (image [50, 200, 3]) \<noteq> 0" "array_size (image [120, 100, 3]) \<noteq> 0"
    by (simp_all add: array_size_def image_def)
  have s: "shape (image [50, 200, 3]) = 50 # 200 # [3]" "shape (image [120, 100, 3]) = 120 # 100 # [3]"
    by (simp_all add: image_def)
  have r1: "analyze_emotion (likely ''happy'') init (Some (image [50, 200, 3])) =
       (init\<lparr>previous_emotions := [''happy'']\<rparr>,
        [CallResize (image [50, 200, 3]) (96, 96),
         CallAnalyze (image [96, 96, 3]) None,
         CallAnalyze (image [96, 96, 3]) (Some ''opencv''),
         LogWarning ''Second attempt failed: '' (LibraryError ''no face'')],
        ''happy'', py_float 0.8)"
    by (simp add: run_defs likely_def)
  have r2: "fst (snd (analyze_emotion (likely ''happy'') init (Some (image [120, 100, 3])))) =
        [CallAnalyze (image [120, 100, 3]) None,
         CallAnalyze (image [120, 100, 3]) (Some ''opencv''),
         LogWarning ''Second attempt failed: '' (LibraryError ''no face'')]"
    by (simp add: run_defs likely_def)
  from small_image_resized_not_rejected [OF refl a(1) s(1) refl, of "likely ''happy''" init]
    small_image_resized_not_rejected [OF refl a(2) s(2) refl, of "likely ''happy''" init]
  show ?thesis using a r1 r2 by simp
qed

section \<open>The decision on an invariant state\<close>

lemma py_max_by_graph:
  fixes f :: "'a \<Rightarrow> 'b::linorder"
  assumes "ks \<noteq> []"
  shows "\<exists>m p q. py_max_by snd (map (\<lambda>k. (k, f k)) ks) = Inr (m, f m) \<and> ks = p @ m # q
           \<and> (\<forall>k\<in>set p. f k < f m) \<and> (\<forall>k\<in>set q. f k \<le> f m)"
proof -
  let ?g = "\<lambda>k. (k, f k)"
  from assms have "map ?g ks \<noteq> []" by simp
  from py_max_by_first [OF this, of snd]
  obtain m' pre post where mx: "py_max_by snd (map ?g ks) = Inr m'"
    and dec: "map ?g ks = pre @ m' # post"
    and lt: "\<forall>a\<in>set pre. snd a < snd m'" and le: "\<forall>a\<in>set post. snd a \<le> snd m'"
    by blast
  from dec obtain p r where ks: "ks = p @ r" and pre: "pre = map ?g p" and r: "m' # post = map ?g r"
    by (auto simp: map_eq_append_conv)
  from r obtain m q where rq: "r = m # q" and m: "m' = ?g m" and post: "post = map ?g q"
    by (auto simp: Cons_eq_map_conv)
  have "py_max_by snd (map ?g ks) = Inr (m, f m)" using mx m by simp
  moreover have "ks = p @ m # q" using ks rq by simp
  moreover have "\<forall>k\<in>set p. f k < f m" using lt pre m by auto
  moreover have "\<forall>k\<in>set q. f k \<le> f m" using le post m by auto
  ultimately show ?thesis by blast
qed

lemma weighted_averages:
  "weighted_emotions weights (averages results) =
     map (\<lambda>l. (l, fmul (mean_score results l) (weight_get weights l))) emotion_labels"
  by (simp add: weighted_emotions_def averages_def)

lemma dominant_emotion_first_max:
  assumes "emotions s = emotion_labels"
  shows "\<exists>c p q. dominant_emotion s results =
                   Inr (c, fmul (mean_score results c) (weight_get (emotion_weights s) c))
           \<and> emotion_labels = p @ c # q
           \<and> (\<forall>l\<in>set p. fmul (mean_score results l) (weight_get (emotion_weights s) l)
                          < fmul (mean_score results c) (weight_get (emotion_weights s) c))
           \<and> (\<forall>l\<in>set q. fmul (mean_score results l) (weight_get (emotion_weights s) l)
                          \<le> fmul (mean_score results c) (weight_get (emotion_weights s) c))"
proof -
  have "emotion_labels \<noteq> []" by (simp add: emotion_labels_def)
  from py_max_by_graph [OF this, of "\<lambda>l. fmul (mean_score results l) (weight_get (emotion_weights s) l)"]
  show ?thesis
    by (simp add: dominant_emotion_def assms average_emotions_labels weighted_averages)
qed

lemma other_averages:
  "filter (\<lambda>(k, v). k \<noteq> ''neutral'') (averages results) =
     map (\<lambda>l. (l, mean_score results l)) other_labels"
  by (simp add: averages_def other_labels_def filter_map comp_def)

lemma neutral_override_keep:
  "\<not> (l = ''neutral'' \<and> v < py_float 0.6) \<Longrightarrow> neutral_override avg (l, v) = (l, v)"
  by (auto simp: neutral_override_def)

lemma neutral_override_low:
  assumes "v < py_float 0.6"
  shows "\<exists>m p q. other_labels = p @ m # q
           \<and> (\<forall>l\<in>set p. mean_score results l < mean_score results m)
           \<and> (\<forall>l\<in>set q. mean_score results l \<le> mean_score results m)
           \<and> neutral_override (averages results) (''neutral'', v) =
               (if 20 < mean_score results m then (m, fdiv (mean_score results m) 100)
                else (''neutral'', v))"
proof -
  have "other_labels \<noteq> []" by (simp add: other_labels_def emotion_labels_def)
  from py_max_by_graph [OF this, of "mean_score results"]
  obtain m p q where "py_max_by snd (map (\<lambda>l. (l, mean_score results l)) other_labels)
       = Inr (m, mean_score results m)"
    and "other_labels = p @ m # q"
    and "\<forall>l\<in>set p. mean_score results l < mean_score results m"
    and "\<forall>l\<in>set q. mean_score results l \<le> mean_score results m"
    by blast
  with assms show ?thesis
    by (auto simp: neutral_override_def other_averages)
qed

lemma neutral_override_label:
  assumes "l \<in> set emotion_labels"
  shows "neutral_override (averages results) (l, fdiv (mean_score results l) 100) =
           (l, fdiv (mean_score results l) 100)
         \<or> (\<exists>m\<in>set emotion_labels.
              neutral_override (averages results) (l, fdiv (mean_score results l) 100) =
                (m, fdiv (mean_score results m) 100))"
proof (cases "l = ''neutral'' \<and> fdiv (mean_score results l) 100 < py_float 0.6")
  case False
  then show ?thesis by (simp add: neutral_override_keep)
next
  case True
  from neutral_override_low [of "fdiv (mean_score results l) 100" results] True
  obtain m p q where dec: "other_labels = p @ m # q"
    and eq: "neutral_override (averages results) (''neutral'', fdiv (mean_score results l) 100) =
               (if 20 < mean_score results m then (m, fdiv (mean_score results m) 100)
                else (''neutral'', fdiv (mean_score results l) 100))"
    by blast
  have "m \<in> set other_labels" unfolding dec by simp
  then have "m \<in> set emotion_labels" by (simp add: other_labels_def)
  with eq True show ?thesis by (cases "20 < mean_score results m") auto
qed

lemma acquire_Return: "acquire ext face_img = (ev, Return r) \<Longrightarrow> r = (''neutral'', 0)"
  by (auto simp: acquire_def classify_def Let_def
      split: option.splits if_splits prod.splits sum.splits)

lemma acquire_results_origin:
  assumes "acquire ext face_img = (ev, Continue results)" and "sc \<in> set results"
  shows "\<exists>img backend face rest.
           deepface_analyze ext img backend = Inr (face # rest) \<and> face ''emotion'' = Some sc"
proof -
  have fe: "\<exists>face rest. deepface_analyze ext img backend = Inr (face # rest)
              \<and> face ''emotion'' = Some sc'"
    if "first_emotion ext img backend = Inr sc'" for img backend sc'
    using that
    by (auto simp: first_emotion_def then_do_def split: sum.splits list.splits option.splits)
  from assms obtain img backend where "first_emotion ext img backend = Inr sc"
    by (auto simp: acquire_def classify_def attempt_def Let_def
        split: option.splits if_splits prod.splits sum.splits)
  from fe [OF this] show ?thesis by blast
qed

lemma analyze_emotion_decides:
  assumes ok: "state_ok s" and acq: "acquire ext face_img = (ev, Continue results)"
  shows "\<exists>c w l. dominant_emotion s results = Inr (c, w) \<and> c \<in> set emotion_labels
           \<and> most_common1 (push_history (previous_emotions s) c 2) = Inr l
           \<and> l \<in> set emotion_labels
           \<and> analyze_emotion ext s face_img =
               (s\<lparr>previous_emotions := push_history (previous_emotions s) c 2\<rparr>, ev,
                neutral_override (averages results) (l, fdiv (mean_score results l) 100))"
proof -
  have ne: "results \<noteq> []" using acq by (rule acquire_Continue_nonempty)
  from stabilize_ok [OF ok ne] show ?thesis
    by (auto simp: analyze_emotion_def analyze_emotion_body_def acq)
qed

lemma acquire_Continue_length:
  "acquire ext face_img = (ev, Continue results) \<Longrightarrow> length results \<le> 2"
  by (auto simp: acquire_def classify_def attempt_def Let_def
      split: option.splits if_splits prod.splits sum.splits)

lemma mean_score_bounds:
  assumes "results \<noteq> []" and "length results \<le> 2"
    and "\<forall>r\<in>set results. \<forall>v. r l = Some v \<longrightarrow> 0 \<le> v \<and> v \<le> 100"
  shows "0 \<le> mean_score results l \<and> mean_score results l \<le> 100"
proof -
  let ?f = "\<lambda>r. case r l of None \<Rightarrow> (0::real) | Some v \<Rightarrow> v"
  have range: "0 \<le> ?f r \<and> ?f r \<le> 100" if "r \<in> set results" for r
    using assms(3) that by (auto split: option.splits)
  from assms(1,2) consider r where "results = [r]" | r1 r2 where "results = [r1, r2]"
    by (cases results; cases "tl results") auto
  then show ?thesis
  proof cases
    case 1
    from range [of r] 1 have v: "0 \<le> ?f r" "?f r \<le> 100" by simp_all
    have s0: "0 \<le> py_float (?f r)" using v(1) by (rule py_float_nonneg)
    have s1: "py_float (?f r) \<le> 100" using py_float_mono [OF v] by simp
    have "0 \<le> py_float (py_float (?f r))" using s0 by (rule py_float_nonneg)
    moreover have "py_float (py_float (?f r)) \<le> 100" using py_float_mono [OF s0 s1] by simp
    ultimately show ?thesis
      by (simp add: mean_score_def 1 py_sum_def fadd_def fdiv_def)
  next
    case 2
    from range [of r1] range [of r2] 2
    have v: "0 \<le> ?f r1" "?f r1 \<le> 100" "0 \<le> ?f r2" "?f r2 \<le> 100" by simp_all
    have a0: "0 \<le> py_float (?f r1)" using v(1) by (rule py_float_nonneg)
    have a1: "py_float (?f r1) \<le> 100" using py_float_mono [OF v(1,2)] by simp
    have b0: "0 \<le> py_float (?f r1) + ?f r2" using a0 v(3) by simp
    have b1: "py_float (?f r1) + ?f r2 \<le> 200" using a1 v(4) by simp
    have c0: "0 \<le> py_float (py_float (?f r1) + ?f r2)" using b0 by (rule py_float_nonneg)
    have c1: "py_float (py_float (?f r1) + ?f r2) \<le> 200"
      using py_float_mono [OF b0 b1] by (simp add: py_float_200)
    have d0: "0 \<le> py_float (py_float (?f r1) + ?f r2) / 2" using c0 by simp
    have d1: "py_float (py_float (?f r1) + ?f r2) / 2 \<le> 100" using c1 by simp
    have "0 \<le> py_float (py_float (py_float (?f r1) + ?f r2) / 2)"
      using d0 by (rule py_float_nonneg)
    moreover have "py_float (py_float (py_float (?f r1) + ?f r2) / 2) \<le> 100"
      using py_float_mono [OF d0 d1] by simp
    ultimately show ?thesis
      by (simp add: mean_score_def 2 py_sum_def fadd_def fdiv_def)
  qed
qed

lemma confidence_bounds:
  assumes "0 \<le> m" and "m \<le> 100"
  shows "0 \<le> fdiv m 100 \<and> fdiv m 100 \<le> 1"
proof -
  have a: "0 \<le> m / 100" "m / 100 \<le> 1" using assms by simp_all
  from py_float_nonneg [OF a(1)] py_float_mono [OF a] show ?thesis by (simp add: fdiv_def)
qed

section \<open>The result of a call\<close>

text \<open>
  Claim C1. Whatever the image, when the raw scores of every classifier response lie
  in \<open>[0, 100]\<close>, a call returns a pair whose label is one of the 7 emotion labels and
  whose confidence lies in \<open>[0, 1]\<close>. The call always returns a pair: the model of
  \<^verbatim>\<open>analyze_emotion\<close> has no exceptional result.
\<close>

theorem label_and_confidence_in_range:
  assumes "reachable s"
    and "\<And>img backend result face sc label v.
           deepface_analyze ext img backend = Inr result \<Longrightarrow> face \<in> set result \<Longrightarrow>
           face ''emotion'' = Some sc \<Longrightarrow> sc label = Some v \<Longrightarrow> 0 \<le> v \<and> v \<le> 100"
    and "analyze_emotion ext s face_img = (s', events, label, confidence)"
  shows "label \<in> {''angry'', ''disgust'', ''fear'', ''happy'', ''sad'', ''surprise'', ''neutral''}
         \<and> 0 \<le> confidence \<and> confidence \<le> 1"
proof -
  note out = assms(3)
  have ok: "state_ok s" using assms(1) by (rule reachable_state_ok)
  have labels: "set emotion_labels =
      {''angry'', ''disgust'', ''fear'', ''happy'', ''sad'', ''surprise'', ''neutral''}"
    by (simp add: emotion_labels_def)
  obtain ev fl where acq: "acquire ext face_img = (ev, fl)" by (cases "acquire ext face_img")
  show ?thesis
  proof (cases fl)
    case (Raise e)
    with out show ?thesis
      by (auto simp: analyze_emotion_def analyze_emotion_body_def acq)
  next
    case (Return r)
    with acq acquire_Return have "r = (''neutral'', 0)" by blast
    with Return out show ?thesis
      by (auto simp: analyze_emotion_def analyze_emotion_body_def acq)
  next
    case (Continue results)
    have ne: "results \<noteq> []" using acq Continue acquire_Continue_nonempty by blast
    have len: "length results \<le> 2" using acq Continue acquire_Continue_length by blast
    have range: "\<forall>r\<in>set results. \<forall>v. r l = Some v \<longrightarrow> 0 \<le> v \<and> v \<le> 100" for l
    proof (intro ballI allI impI)
      fix r v assume r: "r \<in> set results" and v: "r l = Some v"
      from acquire_results_origin [OF acq [unfolded Continue] r]
      obtain img backend face rest where "deepface_analyze ext img backend = Inr (face # rest)"
        and "face ''emotion'' = Some r" by blast
      from assms(2) [of img backend "face # rest" face r l v] this v
      show "0 \<le> v \<and> v \<le> 100" by simp
    qed
    have conf: "0 \<le> fdiv (mean_score results l) 100 \<and> fdiv (mean_score results l) 100 \<le> 1" for l
      using mean_score_bounds [OF ne len range, of l] by (simp add: confidence_bounds)
    from analyze_emotion_decides [OF ok acq [unfolded Continue]]
    obtain c l where lin: "l \<in> set emotion_labels"
      and res: "analyze_emotion ext s face_img =
               (s\<lparr>previous_emotions := push_history (previous_emotions s) c 2\<rparr>, ev,
                neutral_override (averages results) (l, fdiv (mean_score results l) 100))"
      by blast
    from neutral_override_label [OF lin, of results]
    obtain m where "m \<in> set emotion_labels"
      and "neutral_override (averages results) (l, fdiv (mean_score results l) 100) =
             (m, fdiv (mean_score results m) 100)"
      using lin by blast
    with res out conf [of m] show ?thesis unfolding labels by auto
  qed
qed

theorem label_and_confidence_in_range_witness:
  "reachable init
   \<and> deepface_analyze (likely ''happy'') (image [120, 100, 3]) None =
       Inr [face [(''happy'', 80), (''neutral'', 20)]]
   \<and> analyze_emotion (likely ''happy'') init (Some (image [50, 200, 3])) =
       (init\<lparr>previous_emotions := [''happy'']\<rparr>,
        [CallResize (image [50, 200, 3]) (96, 96),
         CallAnalyze (image [96, 96, 3]) None,
         CallAnalyze (image [96, 96, 3]) (Some ''opencv''),
         LogWarning ''Second attempt failed: '' (LibraryError ''no face'')],
        ''happy'', py_float 0.8)
   \<and> ''happy'' \<in> {''angry'', ''disgust'', ''fear'', ''happy'', ''sad'', ''surprise'', ''neutral''}
   \<and> 0 \<le> py_float 0.8 \<and> py_float 0.8 \<le> 1"
proof -
  have range: "0 \<le> v \<and> v \<le> 100"
    if "deepface_analyze (likely ''happy'') img backend = Inr result" and "face' \<in> set result"
      and "face' ''emotion'' = Some sc" and "sc label = Some v"
    for img backend result face' sc label v
    using that
    by (auto simp: likely_def stub_externals_def face_def split: option.splits if_splits)
  have a: "deepface_analyze (likely ''happy'') (image [120, 100, 3]) None =
       Inr [face [(''happy'', 80), (''neutral'', 20)]]"
    by (simp add: likely_def stub_externals_def)
  have b: "analyze_emotion (likely ''happy'') init (Some (image [50, 200, 3])) =
       (init\<lparr>previous_emotions := [''happy'']\<rparr>,
        [CallResize (image [50, 200, 3]) (96, 96),
         CallAnalyze (image [96, 96, 3]) None,
         CallAnalyze (image [96, 96, 3]) (Some ''opencv''),
         LogWarning ''Second attempt failed: '' (LibraryError ''no face'')],
        ''happy'', py_float 0.8)"
    by (simp add: run_defs likely_def)
  have "''happy'' \<in> {''angry'', ''disgust'', ''fear'', ''happy'', ''sad'', ''surprise'', ''neutral''}
        \<and> 0 \<le> py_float 0.8 \<and> py_float 0.8 \<le> 1"
    by (rule label_and_confidence_in_range [OF reachable.fresh _ b]) (erule (3) range)
  with a b reachable.fresh show ?thesis by blast
qed

section \<open>Smoothing and the neutral override\<close>

lemma smooth_averages:
  assumes "h \<noteq> []" and "most_common1 h = Inr l" and "l \<in> set emotion_labels"
  shows "smooth h (averages results) c = Inr (l, fdiv (mean_score results l) 100)"
  using assms by (simp add: smooth_def dict_item_def map_of_averages)

lemma most_common1_short:
  assumes "h \<noteq> []" and "length h \<le> 2"
  shows "most_common1 h = Inr (hd h)"
proof -
  from assms obtain x where "h = [x] \<or> (\<exists>y. h = [x, y])"
    by (cases h; cases "tl h") auto
  then show ?thesis
    by (auto simp: most_common1_def most_common_1_def Counter_def py_max_by_def dict_get_def)
qed

lemma analyze_emotion_out:
  assumes "acquire ext face_img = (ev, Continue results)"
  shows "snd (snd (analyze_emotion ext s face_img)) =
           (case snd (stabilize s results) of Inl e \<Rightarrow> (''neutral'', py_float 0.1) | Inr r \<Rightarrow> r)"
  by (simp add: analyze_emotion_def analyze_emotion_body_def assms split: prod.splits sum.splits)

lemma stabilize_weights:
  assumes "dominant_emotion s results = Inr (c, w)"
    and "dominant_emotion (s\<lparr>emotion_weights := weights\<rparr>) results = Inr (c, w')"
  shows "snd (stabilize (s\<lparr>emotion_weights := weights\<rparr>) results) = snd (stabilize s results)"
  using assms by (simp add: stabilize_def Let_def)

text \<open>
  Claim C2. When the smoothed label is \<open>neutral\<close> with a smoothed confidence below the
  float 0.6, the call looks at the averaged scores of the other six labels and takes the
  first maximal one, \<open>m\<close>. If some other label's averaged score exceeds 20, the call
  returns \<open>m\<close> with its averaged score divided by 100; if none does, it returns the
  smoothed pair. Either way the history has been updated with the candidate. Averaged
  scores, confidences and both tests are those of the floats: the smoothed confidence of
  a neutral score of 59.99999999999999 is the float 0.6, which is not below 0.6, and the
  mean of 20.000000000000004 and 20 is the float 20, which does not exceed 20.
\<close>

theorem neutral_override_rule:
  assumes "reachable s" and "acquire ext face_img = (ev, Continue results)"
    and "dominant_emotion s results = Inr (candidate, w)"
    and "history = push_history (previous_emotions s) candidate (smooth_window s)"
    and "smooth history (average_emotions (emotions s) results) candidate =
           Inr (''neutral'', confidence)"
    and "confidence < py_float 0.6"
    and "out = snd (snd (analyze_emotion ext s face_img))"
  shows "previous_emotions (fst (analyze_emotion ext s face_img)) = history
     \<and> confidence = fdiv (mean_score results ''neutral'') 100
     \<and> (\<exists>m p q. other_labels = p @ m # q
           \<and> (\<forall>l\<in>set p. mean_score results l < mean_score results m)
           \<and> (\<forall>l\<in>set q. mean_score results l \<le> mean_score results m)
           \<and> ((\<exists>l\<in>set other_labels. 20 < mean_score results l) \<longrightarrow>
                 out = (m, fdiv (mean_score results m) 100))
           \<and> ((\<forall>l\<in>set other_labels. mean_score results l \<le> 20) \<longrightarrow>
                 out = (''neutral'', confidence)))"
proof -
  have ok: "state_ok s" using assms(1) by (rule reachable_state_ok)
  then have emos: "emotions s = emotion_labels" and win: "smooth_window s = 2"
    and len: "length (previous_emotions s) \<le> 2"
    by (simp_all add: state_ok_def)
  from analyze_emotion_decides [OF ok assms(2)] assms(3)
  obtain l where l: "most_common1 (push_history (previous_emotions s) candidate 2) = Inr l"
    and lin: "l \<in> set emotion_labels"
    and res: "analyze_emotion ext s face_img =
               (s\<lparr>previous_emotions := push_history (previous_emotions s) candidate 2\<rparr>, ev,
                neutral_override (averages results) (l, fdiv (mean_score results l) 100))"
    by auto
  have hist: "history = push_history (previous_emotions s) candidate 2"
    by (simp add: assms(4) win)
  have hne: "history \<noteq> []" unfolding hist using len by (rule push_history_nonempty)
  have sm: "smooth history (averages results) candidate = Inr (''neutral'', confidence)"
    using assms(5) by (simp add: emos average_emotions_labels)
  have "smooth history (averages results) candidate = Inr (l, fdiv (mean_score results l) 100)"
    using hne l [folded hist] lin by (rule smooth_averages)
  with sm have "(l, fdiv (mean_score results l) 100) = (''neutral'', confidence)"
    by (metis sum.inject(2))
  then have neutral: "l = ''neutral''" and conf: "confidence = fdiv (mean_score results ''neutral'') 100"
    by auto
  have out: "out = neutral_override (averages results) (''neutral'', confidence)"
    by (simp add: assms(7) res neutral conf)
  from neutral_override_low [OF assms(6), of results]
  obtain m p q where dec: "other_labels = p @ m # q"
    and lt: "\<forall>l\<in>set p. mean_score results l < mean_score results m"
    and le: "\<forall>l\<in>set q. mean_score results l \<le> mean_score results m"
    and ov: "neutral_override (averages results) (''neutral'', confidence) =
               (if 20 < mean_score results m then (m, fdiv (mean_score results m) 100)
                else (''neutral'', confidence))"
    by blast
  have all_le: "\<forall>l\<in>set other_labels. mean_score results l \<le> mean_score results m"
    unfolding dec using lt le by auto
  have m_in: "m \<in> set other_labels" unfolding dec by simp
  have yes: "out = (m, fdiv (mean_score results m) 100)"
    if "\<exists>l\<in>set other_labels. 20 < mean_score results l"
  proof -
    from that all_le have "20 < mean_score results m" by force
    then show ?thesis by (simp add: out ov)
  qed
  have no: "out = (''neutral'', confidence)"
    if "\<forall>l\<in>set other_labels. mean_score results l \<le> 20"
  proof -
    from that m_in have "\<not> 20 < mean_score results m" by force
    then show ?thesis by (simp add: out ov)
  qed
  have "previous_emotions (fst (analyze_emotion ext s face_img)) = history"
    by (simp add: res hist)
  with conf dec lt le yes no show ?thesis by blast
qed

theorem neutral_override_rule_witness:
  "reachable init
   \<and> dominant_emotion init
        [map_of [(''neutral'', 55), (''sad'', 25), (''angry'', 5), (''disgust'', 5),
                 (''fear'', 5), (''happy'', 3), (''surprise'', 2)]] = Inr (''neutral'', 44)
   \<and> smooth [''neutral'']
        (average_emotions (emotions init)
           [map_of [(''neutral'', 55), (''sad'', 25), (''angry'', 5), (''disgust'', 5),
                    (''fear'', 5), (''happy'', 3), (''surprise'', 2)]]) ''neutral'' =
        Inr (''neutral'', py_float 0.55)
   \<and> py_float 0.55 < py_float 0.6
   \<and> analyze_emotion subtle_sadness init (Some (image [120, 100, 3])) =
       (init\<lparr>previous_emotions := [''neutral'']\<rparr>,
        [CallAnalyze (image [120, 100, 3]) None,
         CallAnalyze (image [120, 100, 3]) (Some ''opencv''),
         LogWarning ''Second attempt failed: '' (LibraryError ''no face'')],
        ''sad'', 0.25)
   \<and> previous_emotions (fst (analyze_emotion subtle_sadness init (Some (image [120, 100, 3])))) =
       [''neutral'']
   \<and> snd (snd (analyze_emotion
        (stub_externals
           (Inr [face [(''neutral'', 55), (''sad'', py_float 20.000000000000004)]])
           (Inr [face [(''neutral'', 55), (''sad'', 20)]]))
        init (Some (image [120, 100, 3])))) = (''neutral'', py_float 0.55)
   \<and> snd (snd (analyze_emotion
        (stub_externals
           (Inr [face [(''neutral'', py_float 59.99999999999999), (''sad'', 25)]])
           (Inl (LibraryError ''no face'')))
        init (Some (image [120, 100, 3])))) = (''neutral'', py_float 0.6)"
proof -
  let ?sc = "map_of [(''neutral'', 55::real), (''sad'', 25), (''angry'', 5), (''disgust'', 5),
                 (''fear'', 5), (''happy'', 3), (''surprise'', 2)]"
  let ?ev = "[CallAnalyze (image [120, 100, 3]) None,
         CallAnalyze (image [120, 100, 3]) (Some ''opencv''),
         LogWarning ''Second attempt failed: '' (LibraryError ''no face'')]"
  have acq: "acquire subtle_sadness (Some (image [120, 100, 3])) = (?ev, Continue [?sc])"
    by (simp add: run_defs subtle_sadness_def)
  have dom: "dominant_emotion init [?sc] = Inr (''neutral'', 44)"
    by (simp add: run_defs)
  have hist: "[''neutral''] = push_history (previous_emotions init) ''neutral'' (smooth_window init)"
    by (simp add: run_defs)
  have sm: "smooth [''neutral''] (average_emotions (emotions init) [?sc]) ''neutral'' =
              Inr (''neutral'', py_float 0.55)"
    by (simp add: run_defs)
  have lt: "py_float 0.55 < py_float 0.6" by (simp add: float_defs)
  have run: "analyze_emotion subtle_sadness init (Some (image [120, 100, 3])) =
       (init\<lparr>previous_emotions := [''neutral'']\<rparr>, ?ev, ''sad'', 0.25)"
    by (simp add: run_defs subtle_sadness_def)
  from neutral_override_rule [OF reachable.fresh acq dom hist sm lt refl]
  have h: "previous_emotions (fst (analyze_emotion subtle_sadness init (Some (image [120, 100, 3])))) =
       [''neutral'']"
    by blast
  let ?ext = "stub_externals
           (Inr [face [(''neutral'', 55), (''sad'', py_float 20.000000000000004)]])
           (Inr [face [(''neutral'', 55), (''sad'', 20)]])"
  let ?r1 = "map_of [(''neutral'', 55::real), (''sad'', py_float 20.000000000000004)]"
  let ?r2 = "map_of [(''neutral'', 55::real), (''sad'', 20)]"
  let ?ev2 = "[CallAnalyze (image [120, 100, 3]) None,
         CallAnalyze (image [120, 100, 3]) (Some ''opencv'')]"
  have acq2: "acquire ?ext (Some (image [120, 100, 3])) = (?ev2, Continue [?r1, ?r2])"
    by (simp add: run_defs)
  have dom2: "dominant_emotion init [?r1, ?r2] = Inr (''neutral'', 44)"
    by (simp add: run_defs)
  have sm2: "smooth [''neutral''] (average_emotions (emotions init) [?r1, ?r2]) ''neutral'' =
              Inr (''neutral'', py_float 0.55)"
    by (simp add: run_defs)
  have low: "\<forall>l\<in>set other_labels. mean_score [?r1, ?r2] l \<le> 20"
    by (simp add: other_labels_def emotion_labels_def mean_score_def py_sum_def fadd_def fdiv_def
        float_defs)
  from neutral_override_rule [OF reachable.fresh acq2 dom2 hist sm2 lt refl] low
  have keep: "snd (snd (analyze_emotion ?ext init (Some (image [120, 100, 3])))) =
                (''neutral'', py_float 0.55)"
    by blast
  have edge: "snd (snd (analyze_emotion
        (stub_externals
           (Inr [face [(''neutral'', py_float 59.99999999999999), (''sad'', 25)]])
           (Inl (LibraryError ''no face'')))
        init (Some (image [120, 100, 3])))) = (''neutral'', py_float 0.6)"
    by (simp add: run_defs)
  from reachable.fresh dom sm lt run h keep edge show ?thesis by blast
qed

text \<open>
  Claim C4. In a call that reaches the smoothing step, the smoothed label is what
  \<^verbatim>\<open>Counter(history).most_common(1)\<close> gives on the updated history: a most
  frequent label, and among the most frequent ones the one met first (every label met
  before it is strictly less frequent). With a window of 2 this is always the older entry
  of the history; so after two candidates \<open>A\<close>, a third call still has smoothed label \<open>A\<close>
  whatever its candidate. The smoothed confidence is the smoothed label's averaged score
  divided by 100, and the call returns what the neutral override makes of this smoothed
  pair: the pair itself unless the label is \<open>neutral\<close> with a confidence below 0.6.
\<close>

theorem smoothed_label_most_frequent:
  assumes "reachable s" and "acquire ext face_img = (ev, Continue results)"
    and "dominant_emotion s results = Inr (candidate, w)"
    and "history = previous_emotions (fst (analyze_emotion ext s face_img))"
    and "out = snd (snd (analyze_emotion ext s face_img))"
  shows "\<exists>smoothed p q.
           smooth history (average_emotions (emotions s) results) candidate =
             Inr (smoothed, fdiv (mean_score results smoothed) 100)
         \<and> out = neutral_override (average_emotions (emotions s) results)
                   (smoothed, fdiv (mean_score results smoothed) 100)
         \<and> (smoothed \<noteq> ''neutral'' \<or> \<not> fdiv (mean_score results smoothed) 100 < py_float 0.6
               \<longrightarrow> out = (smoothed, fdiv (mean_score results smoothed) 100))
         \<and> most_common1 history = Inr smoothed
         \<and> history = p @ smoothed # q \<and> smoothed \<notin> set p
         \<and> (\<forall>x\<in>set p. count_list history x < count_list history smoothed)
         \<and> (\<forall>x\<in>set history. count_list history x \<le> count_list history smoothed)
         \<and> smoothed = hd history
         \<and> (\<forall>A. previous_emotions s = [A, A] \<longrightarrow> smoothed = A)"
proof -
  have ok: "state_ok s" using assms(1) by (rule reachable_state_ok)
  then have emos: "emotions s = emotion_labels" and len: "length (previous_emotions s) \<le> 2"
    by (simp_all add: state_ok_def)
  from analyze_emotion_decides [OF ok assms(2)] assms(3)
  obtain l where l: "most_common1 (push_history (previous_emotions s) candidate 2) = Inr l"
    and lin: "l \<in> set emotion_labels"
    and res: "analyze_emotion ext s face_img =
               (s\<lparr>previous_emotions := push_history (previous_emotions s) candidate 2\<rparr>, ev,
                neutral_override (averages results) (l, fdiv (mean_score results l) 100))"
    by auto
  have hist: "history = push_history (previous_emotions s) candidate 2"
    by (simp add: assms(4) res)
  have hne: "history \<noteq> []" unfolding hist using len by (rule push_history_nonempty)
  have hlen: "length history \<le> 2" unfolding hist using len by (rule push_history_length)
  have mc: "most_common1 history = Inr l" using l by (simp add: hist)
  have sm: "smooth history (average_emotions (emotions s) results) candidate =
              Inr (l, fdiv (mean_score results l) 100)"
    unfolding emos average_emotions_labels using hne mc lin by (rule smooth_averages)
  have out: "out = neutral_override (average_emotions (emotions s) results)
                     (l, fdiv (mean_score results l) 100)"
    by (simp add: assms(5) res emos average_emotions_labels)
  have keep: "out = (l, fdiv (mean_score results l) 100)"
    if "l \<noteq> ''neutral'' \<or> \<not> fdiv (mean_score results l) 100 < py_float 0.6"
    unfolding out using that by (intro neutral_override_keep) blast
  from most_common1_first [OF hne] mc
  obtain p q where dec: "history = p @ l # q" and np: "l \<notin> set p"
    and lt: "\<forall>x\<in>set p. count_list history x < count_list history l"
    and le: "\<forall>x\<in>set history. count_list history x \<le> count_list history l"
    by auto
  have hd: "l = hd history" using most_common1_short [OF hne hlen] mc by simp
  have twice: "l = A" if "previous_emotions s = [A, A]" for A
    using that hd by (simp add: hist push_history_def)
  from sm out keep mc dec np lt le hd twice show ?thesis by blast
qed

theorem smoothed_label_most_frequent_witness:
  "reachable (fst (analyze_emotion (likely ''happy'')
               (fst (analyze_emotion (likely ''happy'') init (Some (image [120, 100, 3]))))
               (Some (image [120, 100, 3]))))
   \<and> previous_emotions (fst (analyze_emotion (likely ''happy'')
               (fst (analyze_emotion (likely ''happy'') init (Some (image [120, 100, 3]))))
               (Some (image [120, 100, 3])))) = [''happy'', ''happy'']
   \<and> dominant_emotion (init\<lparr>previous_emotions := [''happy'', ''happy'']\<rparr>)
        [map_of [(''sad'', 80), (''neutral'', 20)]] = Inr (''sad'', 96)
   \<and> previous_emotions (fst (analyze_emotion (likely ''sad'')
        (init\<lparr>previous_emotions := [''happy'', ''happy'']\<rparr>) (Some (image [120, 100, 3])))) =
        [''happy'', ''sad'']
   \<and> smooth [''happy'', ''sad'']
        (average_emotions emotion_labels [map_of [(''sad'', 80), (''neutral'', 20)]]) ''sad'' =
        Inr (''happy'', 0)
   \<and> snd (snd (analyze_emotion (likely ''sad'')
        (init\<lparr>previous_emotions := [''happy'', ''happy'']\<rparr>) (Some (image [120, 100, 3])))) =
        (''happy'', 0)"
proof -
  let ?img = "Some (image [120, 100, 3])"
  let ?s1 = "fst (analyze_emotion (likely ''happy'') init ?img)"
  let ?s2 = "fst (analyze_emotion (likely ''happy'') ?s1 ?img)"
  let ?sc = "map_of [(''sad'', 80::real), (''neutral'', 20)]"
  have s1: "?s1 = init\<lparr>previous_emotions := [''happy'']\<rparr>"
    by (simp add: run_defs likely_def)
  have s2: "?s2 = init\<lparr>previous_emotions := [''happy'', ''happy'']\<rparr>"
    unfolding s1 by (simp add: run_defs likely_def)
  have r2: "reachable ?s2" by (intro reachable.call reachable.fresh)
  have h2: "previous_emotions ?s2 = [''happy'', ''happy'']" unfolding s2 by simp
  have e2: "emotions ?s2 = emotion_labels" unfolding s2 by (simp add: init_def)
  have acq: "acquire (likely ''sad'') ?img =
      ([CallAnalyze (image [120, 100, 3]) None, CallAnalyze (image [120, 100, 3]) (Some ''opencv''),
        LogWarning ''Second attempt failed: '' (LibraryError ''no face'')], Continue [?sc])"
    by (simp add: run_defs likely_def)
  have dom: "dominant_emotion ?s2 [?sc] = Inr (''sad'', 96)"
    unfolding s2 by (simp add: run_defs)
  have h3: "previous_emotions (fst (analyze_emotion (likely ''sad'') ?s2 ?img)) = [''happy'', ''sad'']"
    unfolding s2 by (simp add: run_defs likely_def)
  have conf: "fdiv (mean_score [?sc] ''happy'') 100 = 0"
    by (simp add: mean_score_def py_sum_def fadd_def fdiv_def)
  from smoothed_label_most_frequent [OF r2 acq dom refl refl]
  obtain smoothed where
    sm: "smooth (previous_emotions (fst (analyze_emotion (likely ''sad'') ?s2 ?img)))
           (average_emotions (emotions ?s2) [?sc]) ''sad'' =
             Inr (smoothed, fdiv (mean_score [?sc] smoothed) 100)"
    and keep: "smoothed \<noteq> ''neutral'' \<or> \<not> fdiv (mean_score [?sc] smoothed) 100 < py_float 0.6
               \<longrightarrow> snd (snd (analyze_emotion (likely ''sad'') ?s2 ?img)) =
                     (smoothed, fdiv (mean_score [?sc] smoothed) 100)"
    and tw: "\<forall>A. previous_emotions ?s2 = [A, A] \<longrightarrow> smoothed = A"
    by blast
  from tw h2 have sh: "smoothed = ''happy''" by blast
  have a: "smooth [''happy'', ''sad''] (average_emotions emotion_labels [?sc]) ''sad'' =
             Inr (''happy'', 0)"
    using sm unfolding sh h3 e2 conf .
  have b: "snd (snd (analyze_emotion (likely ''sad'') ?s2 ?img)) = (''happy'', 0)"
    using keep unfolding sh conf by simp
  from r2 h2 dom h3 a b show ?thesis unfolding s2 by simp
qed

section \<open>Weights and confidence\<close>

lemma neutral_override_mean:
  "\<exists>m. neutral_override (averages results) (l, fdiv (mean_score results l) 100) =
         (m, fdiv (mean_score results m) 100)"
proof (cases "l = ''neutral'' \<and> fdiv (mean_score results l) 100 < py_float 0.6")
  case False
  then show ?thesis by (simp add: neutral_override_keep)
next
  case True
  from neutral_override_low [of "fdiv (mean_score results l) 100" results] True
  obtain m where
    "neutral_override (averages results) (''neutral'', fdiv (mean_score results l) 100) =
               (if 20 < mean_score results m then (m, fdiv (mean_score results m) 100)
                else (''neutral'', fdiv (mean_score results l) 100))"
    by blast
  with True show ?thesis by (cases "20 < mean_score results m") auto
qed

text \<open>
  Claim C5. In a call that gets raw scores, the candidate is the first label, in the
  order of the label list, whose averaged score times its weight is maximal; the weights
  enter nowhere else: any weight table that picks the same candidate gives the same
  result. The confidence returned is the averaged score of the returned label (the mean
  of its raw scores over the successful attempts, 0 where the label is missing), divided
  by 100. Products, means and quotients are those of the floats: with the scores
  \<open>disgust: 36\<close> and \<open>happy: 48\<close> the float products are 43.199999999999996 and 43.2,
  so the candidate is \<open>happy\<close>, although 36 times 1.2 and 48 times 0.9 are equal numbers.
\<close>

theorem weights_pick_candidate_only:
  assumes "reachable s" and "acquire ext face_img = (ev, Continue results)"
    and "analyze_emotion ext s face_img = (s', events, label, confidence)"
  shows "confidence = fdiv (mean_score results label) 100
     \<and> emotion_weights s = default_weights
     \<and> (\<exists>c p q.
           dominant_emotion s results =
             Inr (c, fmul (mean_score results c) (weight_get default_weights c))
           \<and> emotion_labels = p @ c # q
           \<and> (\<forall>l\<in>set p. fmul (mean_score results l) (weight_get default_weights l)
                          < fmul (mean_score results c) (weight_get default_weights c))
           \<and> (\<forall>l\<in>set q. fmul (mean_score results l) (weight_get default_weights l)
                          \<le> fmul (mean_score results c) (weight_get default_weights c))
           \<and> previous_emotions s' = push_history (previous_emotions s) c 2
           \<and> (\<forall>weights w'.
                 dominant_emotion (s\<lparr>emotion_weights := weights\<rparr>) results = Inr (c, w') \<longrightarrow>
                 snd (snd (analyze_emotion ext (s\<lparr>emotion_weights := weights\<rparr>) face_img)) =
                   (label, confidence)))"
proof -
  have ok: "state_ok s" using assms(1) by (rule reachable_state_ok)
  then have emos: "emotions s = emotion_labels" and wts: "emotion_weights s = default_weights"
    by (simp_all add: state_ok_def)
  from dominant_emotion_first_max [OF emos, of results]
  obtain c p q where
    dom: "dominant_emotion s results =
            Inr (c, fmul (mean_score results c) (weight_get default_weights c))"
    and dec: "emotion_labels = p @ c # q"
    and lt: "\<forall>l\<in>set p. fmul (mean_score results l) (weight_get default_weights l)
                          < fmul (mean_score results c) (weight_get default_weights c)"
    and le: "\<forall>l\<in>set q. fmul (mean_score results l) (weight_get default_weights l)
                          \<le> fmul (mean_score results c) (weight_get default_weights c)"
    unfolding wts by blast
  from analyze_emotion_decides [OF ok assms(2)] dom
  obtain l where
    res: "analyze_emotion ext s face_img =
               (s\<lparr>previous_emotions := push_history (previous_emotions s) c 2\<rparr>, ev,
                neutral_override (averages results) (l, fdiv (mean_score results l) 100))"
    by auto
  from neutral_override_mean [of results l] res assms(3)
  have conf: "confidence = fdiv (mean_score results label) 100" by auto
  have hist: "previous_emotions s' = push_history (previous_emotions s) c 2"
    using res assms(3) by auto
  have same: "snd (snd (analyze_emotion ext (s\<lparr>emotion_weights := weights\<rparr>) face_img)) =
                (label, confidence)"
    if "dominant_emotion (s\<lparr>emotion_weights := weights\<rparr>) results = Inr (c, w')"
    for weights w'
  proof -
    have "snd (snd (analyze_emotion ext (s\<lparr>emotion_weights := weights\<rparr>) face_img)) =
            snd (snd (analyze_emotion ext s face_img))"
      by (simp add: analyze_emotion_out [OF assms(2)] stabilize_weights [OF dom that])
    then show ?thesis by (simp add: assms(3))
  qed
  from conf wts dom dec lt le hist same show ?thesis by blast
qed

theorem weights_pick_candidate_only_witness:
  "reachable init
   \<and> dominant_emotion init
        [map_of [(''sad'', 50), (''happy'', 50)], map_of [(''sad'', 50), (''happy'', 50)]] =
        Inr (''sad'', 60)
   \<and> analyze_emotion torn init (Some (image [120, 100, 3])) =
       (init\<lparr>previous_emotions := [''sad'']\<rparr>,
        [CallAnalyze (image [120, 100, 3]) None,
         CallAnalyze (image [120, 100, 3]) (Some ''opencv'')],
        ''sad'', 0.5)
   \<and> (0.5 :: real) =
       fdiv (mean_score
               [map_of [(''sad'', 50), (''happy'', 50)], map_of [(''sad'', 50), (''happy'', 50)]]
               ''sad'') 100
   \<and> weight_get default_weights ''sad'' = py_float 1.2
   \<and> weight_get default_weights ''happy'' = py_float 0.9
   \<and> fmul 36 (py_float 1.2) < fmul 48 (py_float 0.9)
   \<and> analyze_emotion
        (stub_externals (Inr [face [(''disgust'', 36), (''happy'', 48), (''neutral'', 16)]])
           (Inl (LibraryError ''no face'')))
        init (Some (image [120, 100, 3])) =
       (init\<lparr>previous_emotions := [''happy'']\<rparr>,
        [CallAnalyze (image [120, 100, 3]) None,
         CallAnalyze (image [120, 100, 3]) (Some ''opencv''),
         LogWarning ''Second attempt failed: '' (LibraryError ''no face'')],
        ''happy'', py_float 0.48)
   \<and> py_float 0.48 =
       fdiv (mean_score [map_of [(''disgust'', 36), (''happy'', 48), (''neutral'', 16)]] ''happy'')
         100"
proof -
  have wts: "weight_get default_weights ''sad'' = py_float 1.2"
    "weight_get default_weights ''happy'' = py_float 0.9"
    by (simp_all add: weight_get_def default_weights_def)
  let ?sc = "map_of [(''sad'', 50::real), (''happy'', 50)]"
  let ?ev = "[CallAnalyze (image [120, 100, 3]) None,
         CallAnalyze (image [120, 100, 3]) (Some ''opencv'')]"
  have acq: "acquire torn (Some (image [120, 100, 3])) = (?ev, Continue [?sc, ?sc])"
    by (simp add: run_defs torn_def)
  have run: "analyze_emotion torn init (Some (image [120, 100, 3])) =
       (init\<lparr>previous_emotions := [''sad'']\<rparr>, ?ev, ''sad'', 0.5)"
    by (simp add: run_defs torn_def)
  have dom: "dominant_emotion init [?sc, ?sc] = Inr (''sad'', 60)"
    by (simp add: run_defs)
  from weights_pick_candidate_only [OF reachable.fresh acq run]
  have half: "(0.5 :: real) = fdiv (mean_score [?sc, ?sc] ''sad'') 100" by blast
  let ?ext = "stub_externals (Inr [face [(''disgust'', 36), (''happy'', 48), (''neutral'', 16)]])
           (Inl (LibraryError ''no face''))"
  let ?tie = "map_of [(''disgust'', 36::real), (''happy'', 48), (''neutral'', 16)]"
  let ?ev' = "[CallAnalyze (image [120, 100, 3]) None,
         CallAnalyze (image [120, 100, 3]) (Some ''opencv''),
         LogWarning ''Second attempt failed: '' (LibraryError ''no face'')]"
  have prod: "fmul 36 (py_float 1.2) < fmul 48 (py_float 0.9)"
    by (simp add: fmul_def float_defs)
  have acq': "acquire ?ext (Some (image [120, 100, 3])) = (?ev', Continue [?tie])"
    by (simp add: run_defs)
  have run': "analyze_emotion ?ext init (Some (image [120, 100, 3])) =
       (init\<lparr>previous_emotions := [''happy'']\<rparr>, ?ev', ''happy'', py_float 0.48)"
    by (simp add: run_defs)
  from weights_pick_candidate_only [OF reachable.fresh acq' run']
  have conf: "py_float 0.48 = fdiv (mean_score [?tie] ''happy'') 100" by blast
  from reachable.fresh dom run half wts prod run' conf show ?thesis by blast
qed

end
